theory Spec2Isabelle
  imports Main
begin

section \<open>Entity model (models.py)\<close>

text \<open>
  The five mapped classes, one record per table row. Columns keep the names of
  models.py behind a prefix for the table (\<open>u_\<close> users, \<open>ui_\<close> user_ids, \<open>t_\<close> tasks,
  \<open>r_\<close> regular_tasks, \<open>i_\<close> irregular_tasks). Python's unbounded integers are
  \<open>int\<close>, strings are \<open>string\<close>, a \<open>datetime.date\<close> is year, month and day.
\<close>

datatype date = Date int int int

record user =
  u_id :: int
  u_name :: string

record user_identifier =
  ui_id :: int
  ui_user_id :: int
  ui_identifier :: string
  ui_identifier_type :: string

record task =
  t_id :: int
  t_user_id :: int
  t_name :: string
  t_progress :: int
  t_is_regular :: bool

record regular_task =
  r_id :: int
  r_task_id :: int
  r_weekdays :: string

record irregular_task =
  i_id :: int
  i_task_id :: int
  i_optimal_deadline :: date
  i_hard_deadline :: date

text \<open>A table is the list of its rows in storage order (the order of insertion).\<close>

record database =
  users :: "user list"
  user_ids :: "user_identifier list"
  tasks :: "task list"
  regular_tasks :: "regular_task list"
  irregular_tasks :: "irregular_task list"

section \<open>Column types (models.py on the store of config.py)\<close>

text \<open>
  config.py builds a \<open>postgresql://\<close> URL. On that store \<open>Column(Integer)\<close> is a
  four-byte integer and \<open>Column(String(n))\<close> holds at most \<open>n\<close> characters; a statement
  that carries a value outside its column is refused with a \<open>DataError\<close>, which is an
  \<open>SQLAlchemyError\<close>. A row fits when each of its values is inside its column (an
  element of a \<open>string\<close> stands for one character).
\<close>

definition int32 :: "int \<Rightarrow> bool" where
  "int32 n = (- 2147483648 \<le> n \<and> n \<le> 2147483647)"

definition user_fits :: "user \<Rightarrow> bool" where
  "user_fits u = (int32 (u_id u) \<and> length (u_name u) \<le> 100)"

definition user_identifier_fits :: "user_identifier \<Rightarrow> bool" where
  "user_identifier_fits i =
     (int32 (ui_id i) \<and> int32 (ui_user_id i) \<and> length (ui_identifier i) \<le> 100 \<and>
      length (ui_identifier_type i) \<le> 50)"

definition task_fits :: "task \<Rightarrow> bool" where
  "task_fits t =
     (int32 (t_id t) \<and> int32 (t_user_id t) \<and> length (t_name t) \<le> 200 \<and>
      int32 (t_progress t))"

definition regular_task_fits :: "regular_task \<Rightarrow> bool" where
  "regular_task_fits r = (int32 (r_id r) \<and> int32 (r_task_id r) \<and> length (r_weekdays r) \<le> 20)"

definition irregular_task_fits :: "irregular_task \<Rightarrow> bool" where
  "irregular_task_fits r = (int32 (i_id r) \<and> int32 (i_task_id r))"

definition columns_hold :: "database \<Rightarrow> bool" where
  "columns_hold db =
     (list_all user_fits (users db) \<and>
      list_all user_identifier_fits (user_ids db) \<and>
      list_all task_fits (tasks db) \<and>
      list_all regular_task_fits (regular_tasks db) \<and>
      list_all irregular_task_fits (irregular_tasks db))"

section \<open>The session (database.py, and the session calls of api.py)\<close>

text \<open>
  \<open>TaskManagerAPI\<close> holds one SQLAlchemy session. The model keeps of it
  \<^item> \<open>committed\<close>: the tables as of the last successful commit;
  \<^item> \<open>working\<close>: the tables as the open unit of work sees them (objects added,
  changed or deleted since, not yet committed). Queries read \<open>working\<close>,
  \<open>commit\<close> makes it the committed state, \<open>rollback\<close> throws it away;
  \<^item> \<open>raises\<close>: what the source does not contain of the engine. \<open>raises n\<close> is what
  the engine does at the \<open>n\<close>-th store call of the session, \<open>None\<close> to go on with it
  and \<open>Some c\<close> to raise an \<open>SQLAlchemyError\<close> whose text is \<open>c\<close> (a lost connection,
  a deadlock, a foreign key that names no row, ...);
  \<^item> \<open>calls\<close>: the number of store calls made so far, and \<open>errors\<close>: the store errors
  raised so far, the latest first, each with the number of the call that raised it.

  A store call is an explicit \<open>session.query(...).first()\<close>, \<open>.all()\<close> or
  \<open>session.commit()\<close>, and the read of \<open>obj.id\<close> after a commit: the session of
  database.py is made by \<open>sessionmaker(bind=self.engine)\<close>, so a commit expires every
  loaded object and the next attribute read selects the row again. \<open>session.add\<close> and
  \<open>session.delete\<close> only register the change; reading a relationship of a loaded
  object (\<open>task.regular_task\<close>, \<open>user_id_obj.user\<close>) and \<open>session.rollback()\<close> are
  taken as answered. \<open>first()\<close> takes the first row in storage order that passes the
  filter.
\<close>

record session =
  committed :: database
  working :: database
  raises :: "nat \<Rightarrow> string option"
  calls :: nat
  errors :: "(nat \<times> string) list"

text \<open>
  Every handler of api.py raises \<open>Exception(f"<text for the operation>: {str(e)}")\<close>,
  and every missing row \<open>Exception(f"<entity> ... {id} ...")\<close>. The texts are Russian
  sentences; the model keeps which text it is and the values formatted into it.
\<close>

datatype operation =
    CreateUser | AddUserIdentifier | UpdateUser | DeleteUser
  | CreateTask | CreateRegularTask | CreateIrregularTask
  | UpdateTaskProgress | UpdateRegularTask | UpdateIrregularTask | DeleteTask

datatype entity = UserEntity | TaskEntity | RegularTaskEntity | IrregularTaskEntity

datatype api_error =
    StoreFailure operation string
      \<comment> \<open>\<open>except SQLAlchemyError as e: ... raise Exception(f"...: {str(e)}")\<close>\<close>
  | NotFound entity int
      \<comment> \<open>\<open>if not row: raise Exception(...)\<close>, not an \<open>SQLAlchemyError\<close>\<close>
  | AttributeError
      \<comment> \<open>\<open>task.name = name\<close> when \<open>task\<close> is \<open>None\<close>\<close>
  | SQLAlchemyError string
      \<comment> \<open>a store error outside any \<open>try\<close> (the read-only operations)\<close>

definition store_call :: "session \<Rightarrow> string option \<times> session" where
  "store_call s =
     (case raises s (calls s) of
        None \<Rightarrow> (None, s\<lparr>calls := Suc (calls s)\<rparr>)
      | Some c \<Rightarrow> (Some c, s\<lparr>calls := Suc (calls s), errors := (calls s, c) # errors s\<rparr>))"

definition query_first ::
  "(database \<Rightarrow> 'r list) \<Rightarrow> ('r \<Rightarrow> bool) \<Rightarrow> session \<Rightarrow> (string + 'r option) \<times> session" where
  "query_first table P s =
     (case store_call s of
        (Some c, s1) \<Rightarrow> (Inl c, s1)
      | (None, s1) \<Rightarrow> (Inr (find P (table (working s1))), s1))"

definition query_all ::
  "(database \<Rightarrow> 'r list) \<Rightarrow> ('r \<Rightarrow> bool) \<Rightarrow> session \<Rightarrow> (string + 'r list) \<times> session" where
  "query_all table P s =
     (case store_call s of
        (Some c, s1) \<Rightarrow> (Inl c, s1)
      | (None, s1) \<Rightarrow> (Inr (filter P (table (working s1))), s1))"

text \<open>
  \<open>session.commit()\<close> flushes the pending changes and commits them. The store refuses
  the flush when a row it would then hold does not fit its columns; the text of that
  error is kept as the name of its class.
\<close>

definition commit :: "session \<Rightarrow> (string + unit) \<times> session" where
  "commit s =
     (case store_call s of
        (Some c, s1) \<Rightarrow> (Inl c, s1)
      | (None, s1) \<Rightarrow>
          (if columns_hold (working s1)
           then (Inr (), s1\<lparr>committed := working s1\<rparr>)
           else (Inl ''DataError'', s1\<lparr>errors := (calls s, ''DataError'') # errors s1\<rparr>)))"

text \<open>
  \<open>obj.id\<close> read after a commit, for an object whose key is \<open>k\<close>: the expired object
  is selected again by its key, and the read gives \<open>k\<close>.
\<close>

definition read_id :: "int \<Rightarrow> session \<Rightarrow> (string + int) \<times> session" where
  "read_id k s =
     (case store_call s of
        (Some c, s1) \<Rightarrow> (Inl c, s1)
      | (None, s1) \<Rightarrow> (Inr k, s1))"

definition rollback :: "session \<Rightarrow> session" where
  "rollback s = s\<lparr>working := committed s\<rparr>"

text \<open>
  \<open>id = Column(Integer, primary_key=True)\<close>: the engine gives an inserted row a key
  no row of the table has. The model takes one more than the largest key in use
  (and 1 in an empty table).
\<close>

definition next_id :: "int list \<Rightarrow> int" where
  "next_id ids = fold max ids 0 + 1"

text \<open>\<open>session.add(obj)\<close> for each class; the key is the one the flush will assign.\<close>

definition add_user :: "string \<Rightarrow> session \<Rightarrow> int \<times> session" where
  "add_user name s =
     (let db = working s; k = next_id (map u_id (users db))
      in (k, s\<lparr>working := db\<lparr>users := users db @ [\<lparr>u_id = k, u_name = name\<rparr>]\<rparr>\<rparr>))"

definition add_user_id :: "int \<Rightarrow> string \<Rightarrow> string \<Rightarrow> session \<Rightarrow> int \<times> session" where
  "add_user_id user_id identifier identifier_type s =
     (let db = working s; k = next_id (map ui_id (user_ids db))
      in (k, s\<lparr>working := db\<lparr>user_ids := user_ids db @
            [\<lparr>ui_id = k, ui_user_id = user_id, ui_identifier = identifier,
              ui_identifier_type = identifier_type\<rparr>]\<rparr>\<rparr>))"

text \<open>\<open>Task(user_id=..., name=..., is_regular=...)\<close>: \<open>progress\<close> takes its column default 0.\<close>

definition add_task :: "int \<Rightarrow> string \<Rightarrow> bool \<Rightarrow> session \<Rightarrow> int \<times> session" where
  "add_task user_id name is_regular s =
     (let db = working s; k = next_id (map t_id (tasks db))
      in (k, s\<lparr>working := db\<lparr>tasks := tasks db @
            [\<lparr>t_id = k, t_user_id = user_id, t_name = name, t_progress = 0,
              t_is_regular = is_regular\<rparr>]\<rparr>\<rparr>))"

definition add_regular_task :: "int \<Rightarrow> string \<Rightarrow> session \<Rightarrow> int \<times> session" where
  "add_regular_task task_id weekdays s =
     (let db = working s; k = next_id (map r_id (regular_tasks db))
      in (k, s\<lparr>working := db\<lparr>regular_tasks := regular_tasks db @
            [\<lparr>r_id = k, r_task_id = task_id, r_weekdays = weekdays\<rparr>]\<rparr>\<rparr>))"

definition add_irregular_task :: "int \<Rightarrow> date \<Rightarrow> date \<Rightarrow> session \<Rightarrow> int \<times> session" where
  "add_irregular_task task_id optimal_deadline hard_deadline s =
     (let db = working s; k = next_id (map i_id (irregular_tasks db))
      in (k, s\<lparr>working := db\<lparr>irregular_tasks := irregular_tasks db @
            [\<lparr>i_id = k, i_task_id = task_id, i_optimal_deadline = optimal_deadline,
              i_hard_deadline = hard_deadline\<rparr>]\<rparr>\<rparr>))"

text \<open>
  An attribute assignment on a loaded object becomes, at the flush,
  \<open>UPDATE ... WHERE id = <the object's key>\<close>.
\<close>

definition set_user_name :: "int \<Rightarrow> string \<Rightarrow> session \<Rightarrow> session" where
  "set_user_name k name s =
     s\<lparr>working := (working s)\<lparr>users :=
          map (\<lambda>u. if u_id u = k then u\<lparr>u_name := name\<rparr> else u) (users (working s))\<rparr>\<rparr>"

definition set_task_name :: "int \<Rightarrow> string \<Rightarrow> session \<Rightarrow> session" where
  "set_task_name k name s =
     s\<lparr>working := (working s)\<lparr>tasks :=
          map (\<lambda>t. if t_id t = k then t\<lparr>t_name := name\<rparr> else t) (tasks (working s))\<rparr>\<rparr>"

definition set_task_progress :: "int \<Rightarrow> int \<Rightarrow> session \<Rightarrow> session" where
  "set_task_progress k progress s =
     s\<lparr>working := (working s)\<lparr>tasks :=
          map (\<lambda>t. if t_id t = k then t\<lparr>t_progress := progress\<rparr> else t) (tasks (working s))\<rparr>\<rparr>"

definition set_weekdays :: "int \<Rightarrow> string \<Rightarrow> session \<Rightarrow> session" where
  "set_weekdays k weekdays s =
     s\<lparr>working := (working s)\<lparr>regular_tasks :=
          map (\<lambda>r. if r_id r = k then r\<lparr>r_weekdays := weekdays\<rparr> else r)
            (regular_tasks (working s))\<rparr>\<rparr>"

definition set_optimal_deadline :: "int \<Rightarrow> date \<Rightarrow> session \<Rightarrow> session" where
  "set_optimal_deadline k d s =
     s\<lparr>working := (working s)\<lparr>irregular_tasks :=
          map (\<lambda>r. if i_id r = k then r\<lparr>i_optimal_deadline := d\<rparr> else r)
            (irregular_tasks (working s))\<rparr>\<rparr>"

definition set_hard_deadline :: "int \<Rightarrow> date \<Rightarrow> session \<Rightarrow> session" where
  "set_hard_deadline k d s =
     s\<lparr>working := (working s)\<lparr>irregular_tasks :=
          map (\<lambda>r. if i_id r = k then r\<lparr>i_hard_deadline := d\<rparr> else r)
            (irregular_tasks (working s))\<rparr>\<rparr>"

text \<open>
  \<open>session.delete(task)\<close>: the task goes by its key, and its extension rows with it
  (\<open>cascade="all, delete-orphan"\<close> on \<open>Task.regular_task\<close> and
  \<open>Task.irregular_task\<close>, \<open>ondelete="CASCADE"\<close> on their \<open>task_id\<close>).
\<close>

definition delete_task_rows :: "int list \<Rightarrow> database \<Rightarrow> database" where
  "delete_task_rows ks db =
     db\<lparr>tasks := filter (\<lambda>t. t_id t \<notin> set ks) (tasks db),
        regular_tasks := filter (\<lambda>r. r_task_id r \<notin> set ks) (regular_tasks db),
        irregular_tasks := filter (\<lambda>r. i_task_id r \<notin> set ks) (irregular_tasks db)\<rparr>"

definition session_delete_task :: "task \<Rightarrow> session \<Rightarrow> session" where
  "session_delete_task task s = s\<lparr>working := delete_task_rows [t_id task] (working s)\<rparr>"

text \<open>
  \<open>session.delete(user)\<close>: the user goes by its key; \<open>cascade="all, delete-orphan"\<close>
  on \<open>User.identifiers\<close> and \<open>User.tasks\<close> deletes the objects of both collections
  (the rows whose \<open>user_id\<close> is the user's key), each by its own key, and every such
  task takes its extension rows along.
\<close>

definition session_delete_user :: "user \<Rightarrow> session \<Rightarrow> session" where
  "session_delete_user user s =
     (let db = working s;
          identifiers = map ui_id (filter (\<lambda>i. ui_user_id i = u_id user) (user_ids db));
          user_tasks = map t_id (filter (\<lambda>t. t_user_id t = u_id user) (tasks db))
      in s\<lparr>working := delete_task_rows user_tasks
            (db\<lparr>users := filter (\<lambda>u. u_id u \<noteq> u_id user) (users db),
                user_ids := filter (\<lambda>i. ui_id i \<notin> set identifiers) (user_ids db)\<rparr>)\<rparr>)"

section \<open>The API (api.py, class TaskManagerAPI)\<close>

text \<open>
  Each method takes the session (\<open>self.session\<close>) and returns what it returns or
  raises, and the session afterwards. A \<open>try\<close> block is the \<open>case\<close> on each store
  call of its body; the \<open>Inl\<close> branch of a call is the \<open>except SQLAlchemyError\<close>
  handler. An exception of another class raised in the body leaves the method
  without passing through the handler.
\<close>

subsection \<open>Users\<close>

definition create_user :: "session \<Rightarrow> string \<Rightarrow> (api_error + int) \<times> session" where
  "create_user s name =
     (let (user_id, s1) = add_user name s
      in case commit s1 of
           (Inl e, s2) \<Rightarrow> (Inl (StoreFailure CreateUser e), rollback s2)
         | (Inr _, s2) \<Rightarrow>
             (case read_id user_id s2 of
                (Inl e, s3) \<Rightarrow> (Inl (StoreFailure CreateUser e), rollback s3)
              | (Inr k, s3) \<Rightarrow> (Inr k, s3)))"

definition add_user_identifier ::
  "session \<Rightarrow> int \<Rightarrow> string \<Rightarrow> string \<Rightarrow> (api_error + int) \<times> session" where
  "add_user_identifier s user_id identifier identifier_type =
     (let (k, s1) = add_user_id user_id identifier identifier_type s
      in case commit s1 of
           (Inl e, s2) \<Rightarrow> (Inl (StoreFailure AddUserIdentifier e), rollback s2)
         | (Inr _, s2) \<Rightarrow>
             (case read_id k s2 of
                (Inl e, s3) \<Rightarrow> (Inl (StoreFailure AddUserIdentifier e), rollback s3)
              | (Inr k1, s3) \<Rightarrow> (Inr k1, s3)))"

text \<open>\<open>user_id_obj.user\<close>: the user whose key is the row's \<open>user_id\<close>, \<open>None\<close> without one.\<close>

definition get_user_by_identifier ::
  "session \<Rightarrow> string \<Rightarrow> string \<Rightarrow> (api_error + user option) \<times> session" where
  "get_user_by_identifier s identifier identifier_type =
     (case query_first user_ids
             (\<lambda>i. ui_identifier i = identifier \<and> ui_identifier_type i = identifier_type) s of
        (Inl c, s1) \<Rightarrow> (Inl (SQLAlchemyError c), s1)
      | (Inr None, s1) \<Rightarrow> (Inr None, s1)
      | (Inr (Some user_id_obj), s1) \<Rightarrow>
          (Inr (find (\<lambda>u. u_id u = ui_user_id user_id_obj) (users (working s1))), s1))"


definition update_user :: "session \<Rightarrow> int \<Rightarrow> string \<Rightarrow> (api_error + bool) \<times> session" where
  "update_user s user_id name =
     (case query_first users (\<lambda>u. u_id u = user_id) s of
        (Inl e, s1) \<Rightarrow> (Inl (StoreFailure UpdateUser e), rollback s1)
      | (Inr None, s1) \<Rightarrow> (Inl (NotFound UserEntity user_id), s1)
      | (Inr (Some user), s1) \<Rightarrow>
          (case commit (set_user_name (u_id user) name s1) of
             (Inr _, s2) \<Rightarrow> (Inr True, s2)
           | (Inl e, s2) \<Rightarrow> (Inl (StoreFailure UpdateUser e), rollback s2)))"

definition delete_user :: "session \<Rightarrow> int \<Rightarrow> (api_error + bool) \<times> session" where
  "delete_user s user_id =
     (case query_first users (\<lambda>u. u_id u = user_id) s of
        (Inl e, s1) \<Rightarrow> (Inl (StoreFailure DeleteUser e), rollback s1)
      | (Inr None, s1) \<Rightarrow> (Inl (NotFound UserEntity user_id), s1)
      | (Inr (Some user), s1) \<Rightarrow>
          (case commit (session_delete_user user s1) of
             (Inr _, s2) \<Rightarrow> (Inr True, s2)
           | (Inl e, s2) \<Rightarrow> (Inl (StoreFailure DeleteUser e), rollback s2)))"

subsection \<open>Tasks\<close>

definition create_task ::
  "session \<Rightarrow> int \<Rightarrow> string \<Rightarrow> bool \<Rightarrow> (api_error + int) \<times> session" where
  "create_task s user_id name is_regular =
     (let (task_id, s1) = add_task user_id name is_regular s
      in case commit s1 of
           (Inl e, s2) \<Rightarrow> (Inl (StoreFailure CreateTask e), rollback s2)
         | (Inr _, s2) \<Rightarrow>
             (case read_id task_id s2 of
                (Inl e, s3) \<Rightarrow> (Inl (StoreFailure CreateTask e), rollback s3)
              | (Inr k, s3) \<Rightarrow> (Inr k, s3)))"

text \<open>
  What \<open>create_task\<close> raises is an \<open>Exception\<close>, which the handler of the composed
  create (\<open>except SQLAlchemyError\<close>) does not catch: it reaches the caller as it is.
\<close>

definition create_regular_task ::
  "session \<Rightarrow> int \<Rightarrow> string \<Rightarrow> string \<Rightarrow> (api_error + int) \<times> session" where
  "create_regular_task s user_id name weekdays =
     (case create_task s user_id name True of
        (Inl err, s1) \<Rightarrow> (Inl err, s1)
      | (Inr task_id, s1) \<Rightarrow>
          (let (k, s2) = add_regular_task task_id weekdays s1
           in case commit s2 of
                (Inr _, s3) \<Rightarrow> (Inr task_id, s3)
              | (Inl e, s3) \<Rightarrow> (Inl (StoreFailure CreateRegularTask e), rollback s3)))"

definition create_irregular_task ::
  "session \<Rightarrow> int \<Rightarrow> string \<Rightarrow> date \<Rightarrow> date \<Rightarrow> (api_error + int) \<times> session" where
  "create_irregular_task s user_id name optimal_deadline hard_deadline =
     (case create_task s user_id name False of
        (Inl err, s1) \<Rightarrow> (Inl err, s1)
      | (Inr task_id, s1) \<Rightarrow>
          (let (k, s2) = add_irregular_task task_id optimal_deadline hard_deadline s1
           in case commit s2 of
                (Inr _, s3) \<Rightarrow> (Inr task_id, s3)
              | (Inl e, s3) \<Rightarrow> (Inl (StoreFailure CreateIrregularTask e), rollback s3)))"

definition get_task :: "session \<Rightarrow> int \<Rightarrow> (api_error + task option) \<times> session" where
  "get_task s task_id =
     (case query_first tasks (\<lambda>t. t_id t = task_id) s of
        (Inl c, s1) \<Rightarrow> (Inl (SQLAlchemyError c), s1)
      | (Inr r, s1) \<Rightarrow> (Inr r, s1))"

text \<open>
  The dictionary \<open>get_task_details\<close> builds, as the list of its items in insertion
  order. \<open>task.regular_task\<close> and \<open>task.irregular_task\<close> (\<open>uselist=False\<close>) are
  the first extension row whose \<open>task_id\<close> is the task's key, or \<open>None\<close>; a mapped
  object is always truthy.
\<close>

datatype pyval = PInt int | PStr string | PBool bool | PDate date

definition regular_task_of :: "database \<Rightarrow> task \<Rightarrow> regular_task option" where
  "regular_task_of db task = find (\<lambda>r. r_task_id r = t_id task) (regular_tasks db)"

definition irregular_task_of :: "database \<Rightarrow> task \<Rightarrow> irregular_task option" where
  "irregular_task_of db task = find (\<lambda>r. i_task_id r = t_id task) (irregular_tasks db)"

definition get_task_details ::
  "session \<Rightarrow> int \<Rightarrow> (api_error + (string \<times> pyval) list option) \<times> session" where
  "get_task_details s task_id =
     (case get_task s task_id of
        (Inl err, s1) \<Rightarrow> (Inl err, s1)
      | (Inr None, s1) \<Rightarrow> (Inr None, s1)
      | (Inr (Some task), s1) \<Rightarrow>
          (let result =
                 [(''id'', PInt (t_id task)),
                  (''name'', PStr (t_name task)),
                  (''progress'', PInt (t_progress task)),
                  (''is_regular'', PBool (t_is_regular task)),
                  (''user_id'', PInt (t_user_id task))]
           in (Inr (Some
                (if t_is_regular task then
                   (case regular_task_of (working s1) task of
                      Some r \<Rightarrow> result @ [(''weekdays'', PStr (r_weekdays r))]
                    | None \<Rightarrow> result)
                 else
                   (case irregular_task_of (working s1) task of
                      Some r \<Rightarrow> result @
                        [(''optimal_deadline'', PDate (i_optimal_deadline r)),
                         (''hard_deadline'', PDate (i_hard_deadline r))]
                    | None \<Rightarrow> result))), s1)))"

definition get_user_tasks :: "session \<Rightarrow> int \<Rightarrow> (api_error + task list) \<times> session" where
  "get_user_tasks s user_id =
     (case query_all tasks (\<lambda>t. t_user_id t = user_id) s of
        (Inl c, s1) \<Rightarrow> (Inl (SQLAlchemyError c), s1)
      | (Inr r, s1) \<Rightarrow> (Inr r, s1))"

definition update_task_progress ::
  "session \<Rightarrow> int \<Rightarrow> int \<Rightarrow> (api_error + bool) \<times> session" where
  "update_task_progress s task_id progress =
     (case query_first tasks (\<lambda>t. t_id t = task_id) s of
        (Inl e, s1) \<Rightarrow> (Inl (StoreFailure UpdateTaskProgress e), rollback s1)
      | (Inr None, s1) \<Rightarrow> (Inl (NotFound TaskEntity task_id), s1)
      | (Inr (Some task), s1) \<Rightarrow>
          (case commit (set_task_progress (t_id task) progress s1) of
             (Inr _, s2) \<Rightarrow> (Inr True, s2)
           | (Inl e, s2) \<Rightarrow> (Inl (StoreFailure UpdateTaskProgress e), rollback s2)))"

text \<open>
  \<open>if name:\<close> and \<open>if weekdays:\<close> test a string or \<open>None\<close>: the branch is taken for a
  string that is not empty. \<open>if optimal_deadline:\<close> tests a date or \<open>None\<close>, and a
  date is always truthy.
\<close>

definition truthy_str :: "string option \<Rightarrow> string option" where
  "truthy_str x = (case x of None \<Rightarrow> None | Some v \<Rightarrow> (if v = [] then None else Some v))"

text \<open>
  The block \<open>if name: task = ...query(Task).filter_by(id=task_id).first(); task.name = name\<close>
  of both extension updates, inside the \<open>try\<close> of the operation \<open>op\<close>: the new
  session, or what is raised.
\<close>

definition rename_base_task ::
  "operation \<Rightarrow> int \<Rightarrow> string option \<Rightarrow> session \<Rightarrow> (api_error \<times> session) + session" where
  "rename_base_task op task_id name s =
     (case truthy_str name of
        None \<Rightarrow> Inr s
      | Some v \<Rightarrow>
          (case query_first tasks (\<lambda>t. t_id t = task_id) s of
             (Inl e, s1) \<Rightarrow> Inl (StoreFailure op e, rollback s1)
           | (Inr None, s1) \<Rightarrow> Inl (AttributeError, s1)
           | (Inr (Some task), s1) \<Rightarrow> Inr (set_task_name (t_id task) v s1)))"

definition update_regular_task ::
  "session \<Rightarrow> int \<Rightarrow> string option \<Rightarrow> string option \<Rightarrow> (api_error + bool) \<times> session" where
  "update_regular_task s task_id name weekdays =
     (case query_first regular_tasks (\<lambda>r. r_task_id r = task_id) s of
        (Inl e, s1) \<Rightarrow> (Inl (StoreFailure UpdateRegularTask e), rollback s1)
      | (Inr None, s1) \<Rightarrow> (Inl (NotFound RegularTaskEntity task_id), s1)
      | (Inr (Some regular_task), s1) \<Rightarrow>
          (case rename_base_task UpdateRegularTask task_id name s1 of
             Inl (err, s2) \<Rightarrow> (Inl err, s2)
           | Inr s2 \<Rightarrow>
               (let s3 = (case truthy_str weekdays of
                            None \<Rightarrow> s2
                          | Some v \<Rightarrow> set_weekdays (r_id regular_task) v s2)
                in case commit s3 of
                     (Inr _, s4) \<Rightarrow> (Inr True, s4)
                   | (Inl e, s4) \<Rightarrow> (Inl (StoreFailure UpdateRegularTask e), rollback s4))))"

definition update_irregular_task ::
  "session \<Rightarrow> int \<Rightarrow> string option \<Rightarrow> date option \<Rightarrow> date option
     \<Rightarrow> (api_error + bool) \<times> session" where
  "update_irregular_task s task_id name optimal_deadline hard_deadline =
     (case query_first irregular_tasks (\<lambda>r. i_task_id r = task_id) s of
        (Inl e, s1) \<Rightarrow> (Inl (StoreFailure UpdateIrregularTask e), rollback s1)
      | (Inr None, s1) \<Rightarrow> (Inl (NotFound IrregularTaskEntity task_id), s1)
      | (Inr (Some irregular_task), s1) \<Rightarrow>
          (case rename_base_task UpdateIrregularTask task_id name s1 of
             Inl (err, s2) \<Rightarrow> (Inl err, s2)
           | Inr s2 \<Rightarrow>
               (let s3 = (case optimal_deadline of
                            None \<Rightarrow> s2
                          | Some d \<Rightarrow> set_optimal_deadline (i_id irregular_task) d s2);
                    s4 = (case hard_deadline of
                            None \<Rightarrow> s3
                          | Some d \<Rightarrow> set_hard_deadline (i_id irregular_task) d s3)
                in case commit s4 of
                     (Inr _, s5) \<Rightarrow> (Inr True, s5)
                   | (Inl e, s5) \<Rightarrow> (Inl (StoreFailure UpdateIrregularTask e), rollback s5))))"

definition delete_task :: "session \<Rightarrow> int \<Rightarrow> (api_error + bool) \<times> session" where
  "delete_task s task_id =
     (case query_first tasks (\<lambda>t. t_id t = task_id) s of
        (Inl e, s1) \<Rightarrow> (Inl (StoreFailure DeleteTask e), rollback s1)
      | (Inr None, s1) \<Rightarrow> (Inl (NotFound TaskEntity task_id), s1)
      | (Inr (Some task), s1) \<Rightarrow>
          (case commit (session_delete_task task s1) of
             (Inr _, s2) \<Rightarrow> (Inr True, s2)
           | (Inl e, s2) \<Rightarrow> (Inl (StoreFailure DeleteTask e), rollback s2)))"

section \<open>Stores and engines to run the API on\<close>

text \<open>
  \<open>open_session db engine\<close> is the session \<open>Database.get_session()\<close> hands to the
  API on a store that holds \<open>db\<close>: nothing pending, no store call made yet.
\<close>

definition open_session :: "database \<Rightarrow> (nat \<Rightarrow> string option) \<Rightarrow> session" where
  "open_session db engine =
     \<lparr>committed = db, working = db, raises = engine, calls = 0, errors = []\<rparr>"

definition reliable :: "nat \<Rightarrow> string option" where
  "reliable n = None"

definition fails_at :: "nat \<Rightarrow> string \<Rightarrow> nat \<Rightarrow> string option" where
  "fails_at k c n = (if n = k then Some c else None)"

definition empty_db :: database where
  "empty_db = \<lparr>users = [], user_ids = [], tasks = [], regular_tasks = [], irregular_tasks = []\<rparr>"

text \<open>
  The store the demonstration of main.py builds (a user with a Telegram identifier, a
  regular and an irregular task), and a second user.
\<close>

definition demo_db :: database where
  "demo_db =
     \<lparr>users = [\<lparr>u_id = 1, u_name = ''Ivan''\<rparr>, \<lparr>u_id = 2, u_name = ''Anna''\<rparr>],
      user_ids = [\<lparr>ui_id = 1, ui_user_id = 1, ui_identifier = ''123456789'',
                   ui_identifier_type = ''telegram''\<rparr>],
      tasks = [\<lparr>t_id = 1, t_user_id = 1, t_name = ''Exercise'', t_progress = 0,
                 t_is_regular = True\<rparr>,
               \<lparr>t_id = 2, t_user_id = 1, t_name = ''Report'', t_progress = 0,
                 t_is_regular = False\<rparr>],
      regular_tasks = [\<lparr>r_id = 1, r_task_id = 1, r_weekdays = ''1,2,3,4,5''\<rparr>],
      irregular_tasks = [\<lparr>i_id = 1, i_task_id = 2, i_optimal_deadline = Date 2025 5 10,
                           i_hard_deadline = Date 2025 5 15\<rparr>]\<rparr>"

text \<open>The store after a second user registered the same Telegram identifier.\<close>

definition shared_db :: database where
  "shared_db =
     demo_db\<lparr>user_ids := user_ids demo_db @
       [\<lparr>ui_id = 2, ui_user_id = 2, ui_identifier = ''123456789'',
         ui_identifier_type = ''telegram''\<rparr>]\<rparr>"

section \<open>Foreign keys of the extension tables\<close>

text \<open>
  \<open>task_id = Column(Integer, ForeignKey("tasks.id", ondelete="CASCADE"))\<close> in
  \<open>RegularTask\<close> and \<open>IrregularTask\<close>: the \<open>task_id\<close> of an extension row is the key
  of a task row.
\<close>

definition extension_keys_hold :: "database \<Rightarrow> bool" where
  "extension_keys_hold db =
     (list_all (\<lambda>r. r_task_id r \<in> set (map t_id (tasks db))) (regular_tasks db) \<and>
      list_all (\<lambda>r. i_task_id r \<in> set (map t_id (tasks db))) (irregular_tasks db))"

text \<open>
  A session between two calls of the API, as the calls leave it: nothing is pending, the
  extension rows each name a task, and every row fits its columns.
\<close>

definition settled :: "session \<Rightarrow> bool" where
  "settled s =
     (working s = committed s \<and> extension_keys_hold (working s) \<and> columns_hold (working s))"

section \<open>The mutating operations as one family\<close>

text \<open>
  A call of one of the eleven mutating methods with its arguments; \<open>run\<close> makes the
  call and keeps what was raised, if anything, and the session afterwards.
\<close>

datatype mutation =
    Create_user string
  | Add_user_identifier int string string
  | Update_user int string
  | Delete_user int
  | Create_task int string bool
  | Create_regular_task int string string
  | Create_irregular_task int string date date
  | Update_task_progress int int
  | Update_regular_task int "string option" "string option"
  | Update_irregular_task int "string option" "date option" "date option"
  | Delete_task int

definition raised :: "(api_error + 'a) \<times> session \<Rightarrow> api_error option \<times> session" where
  "raised r = (case r of (Inl e, s) \<Rightarrow> (Some e, s) | (Inr v, s) \<Rightarrow> (None, s))"

fun run :: "mutation \<Rightarrow> session \<Rightarrow> api_error option \<times> session" where
  "run (Create_user name) s = raised (create_user s name)"
| "run (Add_user_identifier user_id identifier identifier_type) s =
     raised (add_user_identifier s user_id identifier identifier_type)"
| "run (Update_user user_id name) s = raised (update_user s user_id name)"
| "run (Delete_user user_id) s = raised (delete_user s user_id)"
| "run (Create_task user_id name is_regular) s = raised (create_task s user_id name is_regular)"
| "run (Create_regular_task user_id name weekdays) s =
     raised (create_regular_task s user_id name weekdays)"
| "run (Create_irregular_task user_id name optimal_deadline hard_deadline) s =
     raised (create_irregular_task s user_id name optimal_deadline hard_deadline)"
| "run (Update_task_progress task_id progress) s =
     raised (update_task_progress s task_id progress)"
| "run (Update_regular_task task_id name weekdays) s =
     raised (update_regular_task s task_id name weekdays)"
| "run (Update_irregular_task task_id name optimal_deadline hard_deadline) s =
     raised (update_irregular_task s task_id name optimal_deadline hard_deadline)"
| "run (Delete_task task_id) s = raised (delete_task s task_id)"

text \<open>
  The handler that catches a store error of the call, by the number \<open>k\<close> of store calls
  the operation made before the one that raised: the method's own, but in a composed
  create the one of \<open>create_task\<close> for the two store calls that \<open>create_task\<close> makes (its
  commit and the read of \<open>task.id\<close>).
\<close>

fun handler :: "mutation \<Rightarrow> nat \<Rightarrow> operation" where
  "handler (Create_user name) k = CreateUser"
| "handler (Add_user_identifier user_id identifier identifier_type) k = AddUserIdentifier"
| "handler (Update_user user_id name) k = UpdateUser"
| "handler (Delete_user user_id) k = DeleteUser"
| "handler (Create_task user_id name is_regular) k = CreateTask"
| "handler (Create_regular_task user_id name weekdays) k =
     (if k < 2 then CreateTask else CreateRegularTask)"
| "handler (Create_irregular_task user_id name optimal_deadline hard_deadline) k =
     (if k < 2 then CreateTask else CreateIrregularTask)"
| "handler (Update_task_progress task_id progress) k = UpdateTaskProgress"
| "handler (Update_regular_task task_id name weekdays) k = UpdateRegularTask"
| "handler (Update_irregular_task task_id name optimal_deadline hard_deadline) k =
     UpdateIrregularTask"
| "handler (Delete_task task_id) k = DeleteTask"

text \<open>
  The committed tables at the start of the unit of work in which the store call number
  \<open>k\<close> of the operation is made. The first store call of every operation is made in
  the unit of work the operation finds. A create commits at its first store call, so
  that its later store calls (the read of the new key, and in a composed create the
  commit of the extension row) are made in a unit of work that starts with the new row
  committed. The other operations commit at their last store call only.
\<close>

fun unit_start :: "mutation \<Rightarrow> session \<Rightarrow> nat \<Rightarrow> database" where
  "unit_start (Create_user name) s k =
     (if k = 0 then committed s else working (snd (add_user name s)))"
| "unit_start (Add_user_identifier user_id identifier identifier_type) s k =
     (if k = 0 then committed s
      else working (snd (add_user_id user_id identifier identifier_type s)))"
| "unit_start (Create_task user_id name is_regular) s k =
     (if k = 0 then committed s else working (snd (add_task user_id name is_regular s)))"
| "unit_start (Create_regular_task user_id name weekdays) s k =
     (if k = 0 then committed s else working (snd (add_task user_id name True s)))"
| "unit_start (Create_irregular_task user_id name optimal_deadline hard_deadline) s k =
     (if k = 0 then committed s else working (snd (add_task user_id name False s)))"
| "unit_start m s k = committed s"


text \<open>
  Between the sessions \<open>s\<close> and \<open>s1\<close> the store raised \<open>c\<close> at its call number
  \<open>n\<close>: the error is the one the session recorded since \<open>s\<close>, the call is a call
  made since \<open>s\<close> and the last one made (nothing is tried again after it), every call
  before it was answered, and \<open>c\<close> is what the engine raised at the call or, where the
  engine answered, the refusal of a value that does not fit its column.
\<close>

definition store_error_at :: "session \<Rightarrow> session \<Rightarrow> nat \<Rightarrow> string \<Rightarrow> bool" where
  "store_error_at s s1 n c =
     (errors s1 = (n, c) # errors s \<and> calls s \<le> n \<and> calls s1 = Suc n \<and>
      list_all (\<lambda>j. raises s j = None) [calls s ..< n] \<and>
      (raises s n = Some c \<or> raises s n = None \<and> c = ''DataError''))"

section \<open>Keys and lookups\<close>

lemma fold_max_ge: "(a::int) \<le> fold max xs a"
  by (induction xs arbitrary: a) (auto intro: order_trans [OF max.cobounded2])

lemma fold_max_mem: "k \<in> set xs \<Longrightarrow> (k::int) \<le> fold max xs a"
proof (induction xs arbitrary: a)
  case Nil
  then show ?case by simp
next
  case (Cons x xs)
  show ?case
  proof (cases "k = x")
    case True
    have "x \<le> max x a" by simp
    also have "\<dots> \<le> fold max xs (max x a)" by (rule fold_max_ge)
    finally show ?thesis using True by simp
  next
    case False
    with Cons show ?thesis by simp
  qed
qed

lemma next_id_fresh: "k \<in> set ids \<Longrightarrow> k < next_id ids"
  using fold_max_mem [of k ids 0] by (simp add: next_id_def)

lemma find_app:
  "find P (xs @ ys) = (case find P xs of None \<Rightarrow> find P ys | Some x \<Rightarrow> Some x)"
  by (induction xs) auto

lemma find_fresh_key:
  "find (\<lambda>x. key x = next_id (map key xs)) (xs @ [y]) =
     (if key y = next_id (map key xs) then Some y else None)"
proof -
  have "find (\<lambda>x. key x = next_id (map key xs)) xs = None"
    using next_id_fresh [of _ "map key xs"] by (force simp: find_None_iff)
  then show ?thesis by (simp add: find_app)
qed

lemma find_map_key:
  assumes "\<And>x. key (f x) = key x"
  shows "find (\<lambda>x. key x = k) (map f xs) = map_option f (find (\<lambda>x. key x = k) xs)"
  by (induction xs) (simp_all add: assms)

lemma find_Some_holds: "find P xs = Some x \<Longrightarrow> P x"
  by (auto simp: find_Some_iff)

lemma find_Some_mem: "find P xs = Some x \<Longrightarrow> x \<in> set xs"
  by (auto simp: find_Some_iff)

lemma next_id_not_mem: "next_id ids \<notin> set ids"
  using next_id_fresh [of "next_id ids" ids] by auto

lemma find_app_None: "find P xs = None \<Longrightarrow> find P (xs @ ys) = find P ys"
  by (simp add: find_app)

lemma fresh_task_unreferenced:
  assumes "extension_keys_hold db"
  shows "find (\<lambda>r. r_task_id r = next_id (map t_id (tasks db))) (regular_tasks db) = None"
    and "find (\<lambda>r. i_task_id r = next_id (map t_id (tasks db))) (irregular_tasks db) = None"
proof -
  have "\<And>k. k \<in> t_id ` set (tasks db) \<Longrightarrow> k \<noteq> next_id (map t_id (tasks db))"
    using next_id_fresh [of _ "map t_id (tasks db)"] by force
  then show "find (\<lambda>r. r_task_id r = next_id (map t_id (tasks db))) (regular_tasks db) = None"
    and "find (\<lambda>r. i_task_id r = next_id (map t_id (tasks db))) (irregular_tasks db) = None"
    using assms by (auto simp: extension_keys_hold_def find_None_iff list_all_iff)
qed




section \<open>Store calls\<close>

lemma int32_zero: "int32 0"
  by (simp add: int32_def)

lemma commit_answered:
  assumes "raises s (calls s) = None" and "columns_hold (working s)"
  shows "commit s = (Inr (), s\<lparr>calls := Suc (calls s), committed := working s\<rparr>)"
  using assms by (simp add: commit_def store_call_def)

lemma commit_refused:
  assumes "raises s (calls s) = None" and "\<not> columns_hold (working s)"
  shows "commit s =
           (Inl ''DataError'',
            s\<lparr>calls := Suc (calls s), errors := (calls s, ''DataError'') # errors s\<rparr>)"
  using assms by (simp add: commit_def store_call_def)

lemma commit_raised:
  assumes "raises s (calls s) = Some c"
  shows "commit s = (Inl c, s\<lparr>calls := Suc (calls s), errors := (calls s, c) # errors s\<rparr>)"
  using assms by (simp add: commit_def store_call_def)

lemma commit_Inr:
  assumes "commit s = (Inr u, s1)"
  shows "raises s (calls s) = None \<and> columns_hold (working s) \<and>
         s1 = s\<lparr>calls := Suc (calls s), committed := working s\<rparr>"
  using assms by (auto simp: commit_def store_call_def split: option.splits if_splits)

lemma commit_Inl:
  assumes "commit s = (Inl c, s1)"
  shows "s1 = s\<lparr>calls := Suc (calls s), errors := (calls s, c) # errors s\<rparr>"
  using assms by (auto simp: commit_def store_call_def split: option.splits if_splits)

lemma read_id_answered:
  assumes "raises s (calls s) = None"
  shows "read_id k s = (Inr k, s\<lparr>calls := Suc (calls s)\<rparr>)"
  using assms by (simp add: read_id_def store_call_def)

lemma read_id_Inr:
  assumes "read_id k s = (Inr j, s1)"
  shows "j = k \<and> raises s (calls s) = None \<and> s1 = s\<lparr>calls := Suc (calls s)\<rparr>"
  using assms by (auto simp: read_id_def store_call_def split: option.splits)

lemma read_id_Inl:
  assumes "read_id k s = (Inl c, s1)"
  shows "raises s (calls s) = Some c \<and>
         s1 = s\<lparr>calls := Suc (calls s), errors := (calls s, c) # errors s\<rparr>"
  using assms by (auto simp: read_id_def store_call_def split: option.splits)

lemma query_first_answered:
  assumes "raises s (calls s) = None"
  shows "query_first table P s = (Inr (find P (table (working s))), s\<lparr>calls := Suc (calls s)\<rparr>)"
  using assms by (simp add: query_first_def store_call_def)

lemma query_first_raised:
  assumes "raises s (calls s) = Some c"
  shows "query_first table P s =
           (Inl c, s\<lparr>calls := Suc (calls s), errors := (calls s, c) # errors s\<rparr>)"
  using assms by (simp add: query_first_def store_call_def)

lemma query_first_Inr:
  assumes "query_first table P s = (Inr v, s1)"
  shows "raises s (calls s) = None \<and> v = find P (table (working s)) \<and>
         s1 = s\<lparr>calls := Suc (calls s)\<rparr>"
  using assms by (auto simp: query_first_def store_call_def split: option.splits)

lemma query_first_Inl:
  assumes "query_first table P s = (Inl c, s1)"
  shows "raises s (calls s) = Some c \<and>
         s1 = s\<lparr>calls := Suc (calls s), errors := (calls s, c) # errors s\<rparr>"
  using assms by (auto simp: query_first_def store_call_def split: option.splits)

section \<open>The read-only operations, when the engine answers\<close>

lemma get_task_answered:
  "raises s (calls s) = None \<Longrightarrow>
     fst (get_task s k) = Inr (find (\<lambda>t. t_id t = k) (tasks (working s)))"
  by (simp add: get_task_def query_first_def store_call_def)

lemma get_user_tasks_answered:
  "raises s (calls s) = None \<Longrightarrow>
     fst (get_user_tasks s k) = Inr (filter (\<lambda>t. t_user_id t = k) (tasks (working s)))"
  by (simp add: get_user_tasks_def query_all_def store_call_def)

lemma get_user_by_identifier_answered:
  "raises s (calls s) = None \<Longrightarrow>
     fst (get_user_by_identifier s identifier identifier_type) =
       Inr (case find (\<lambda>i. ui_identifier i = identifier \<and> ui_identifier_type i = identifier_type)
                   (user_ids (working s)) of
              None \<Rightarrow> None
            | Some r \<Rightarrow> find (\<lambda>u. u_id u = ui_user_id r) (users (working s)))"
  by (simp add: get_user_by_identifier_def query_first_def store_call_def split: option.splits)

section \<open>Users\<close>









section \<open>Progress\<close>

lemma columns_hold_map_tasks:
  assumes "columns_hold db" and "\<And>t. t \<in> set (tasks db) \<Longrightarrow> task_fits (f t)"
  shows "columns_hold (db\<lparr>tasks := map f (tasks db)\<rparr>)"
  using assms by (auto simp: columns_hold_def list_all_iff)

lemma task_fits_progress:
  "task_fits (t\<lparr>t_progress := p\<rparr>) =
     (int32 (t_id t) \<and> int32 (t_user_id t) \<and> length (t_name t) \<le> 200 \<and> int32 p)"
  by (simp add: task_fits_def)

lemma progress_in_range:
  assumes "find (\<lambda>t. t_id t = task_id) (tasks (working s)) = Some task"
    and "int32 progress" and "columns_hold (working s)"
    and "raises s (calls s) = None" and "raises s (Suc (calls s)) = None"
    and "raises s (Suc (Suc (calls s))) = None"
  shows "\<exists>s1. update_task_progress s task_id progress = (Inr True, s1) \<and>
           fst (get_task s1 task_id) = Inr (Some (task\<lparr>t_progress := progress\<rparr>)) \<and>
           find (\<lambda>t. t_id t = task_id) (tasks (committed s1)) =
             Some (task\<lparr>t_progress := progress\<rparr>)"
proof -
  let ?f = "\<lambda>t. if t_id t = task_id then t\<lparr>t_progress := progress\<rparr> else t"
  have k: "t_id task = task_id"
    using assms(1) by (rule find_Some_holds)
  have found: "find (\<lambda>t. t_id t = task_id) (map ?f (tasks (working s))) =
      Some (task\<lparr>t_progress := progress\<rparr>)"
    using assms(1) k by (subst find_map_key) simp_all
  have "task_fits (?f t)" if "t \<in> set (tasks (working s))" for t
    using that assms(2,3)
    by (auto simp: columns_hold_def list_all_iff task_fits_progress) (simp_all add: task_fits_def)
  then have fits: "columns_hold ((working s)\<lparr>tasks := map ?f (tasks (working s))\<rparr>)"
    using assms(3) by (rule columns_hold_map_tasks [rotated])
  show ?thesis
    using assms(4-6) k found fits assms(1)
    by (simp add: update_task_progress_def set_task_progress_def query_first_answered
        commit_answered get_task_def)
qed

lemma progress_out_of_range:
  assumes "find (\<lambda>t. t_id t = task_id) (tasks (working s)) = Some task"
    and "\<not> int32 progress"
  shows "\<exists>c s1. update_task_progress s task_id progress =
             (Inl (StoreFailure UpdateTaskProgress c), s1) \<and>
           committed s1 = committed s \<and> working s1 = committed s"
proof -
  let ?f = "\<lambda>t. if t_id t = task_id then t\<lparr>t_progress := progress\<rparr> else t"
  have k: "t_id task = task_id"
    using assms(1) by (rule find_Some_holds)
  have "task \<in> set (tasks (working s))"
    using assms(1) by (rule find_Some_mem)
  then have mem: "task\<lparr>t_progress := progress\<rparr> \<in> set (map ?f (tasks (working s)))"
    using k by force
  have bad: "\<not> task_fits (task\<lparr>t_progress := progress\<rparr>)"
    using assms(2) by (simp add: task_fits_progress)
  have "\<not> list_all task_fits (map ?f (tasks (working s)))"
    unfolding list_all_iff using mem bad by blast
  then have refused: "\<not> columns_hold ((working s)\<lparr>tasks := map ?f (tasks (working s))\<rparr>)"
    by (simp add: columns_hold_def)
  show ?thesis
  proof (cases "raises s (calls s)")
    case (Some c)
    then show ?thesis
      by (simp add: update_task_progress_def query_first_raised rollback_def)
  next
    case None
    show ?thesis
    proof (cases "raises s (Suc (calls s))")
      case (Some c)
      with None assms(1) k show ?thesis
        by (simp add: update_task_progress_def set_task_progress_def query_first_answered
            commit_raised rollback_def)
    next
      case n: None
      with None assms(1) k refused show ?thesis
        by (simp add: update_task_progress_def set_task_progress_def query_first_answered
            commit_refused rollback_def)
    qed
  qed
qed

lemma update_task_progress_Inr:
  assumes "update_task_progress s task_id progress = (Inr v, s1)"
  shows "int32 progress \<and> v \<and> calls s1 = Suc (Suc (calls s)) \<and> raises s1 = raises s \<and>
         (\<exists>task. find (\<lambda>t. t_id t = task_id) (tasks (working s)) = Some task \<and>
            find (\<lambda>t. t_id t = task_id) (tasks (working s1)) =
              Some (task\<lparr>t_progress := progress\<rparr>) \<and>
            committed s1 = working s1)"
proof -
  obtain task where task: "find (\<lambda>t. t_id t = task_id) (tasks (working s)) = Some task"
    using assms
    by (cases "find (\<lambda>t. t_id t = task_id) (tasks (working s))")
       (auto simp: update_task_progress_def dest!: query_first_Inr query_first_Inl
        split: prod.splits sum.splits option.splits)
  have k: "t_id task = task_id"
    using task by (rule find_Some_holds)
  have range: "int32 progress"
    using progress_out_of_range [OF task, of progress] assms by auto
  let ?f = "\<lambda>t. if t_id t = task_id then t\<lparr>t_progress := progress\<rparr> else t"
  have found: "find (\<lambda>t. t_id t = task_id) (map ?f (tasks (working s))) =
      Some (task\<lparr>t_progress := progress\<rparr>)"
    using task k by (subst find_map_key) simp_all
  show ?thesis
    using assms task k range found
    by (auto simp: update_task_progress_def set_task_progress_def
        dest!: query_first_Inr commit_Inr split: prod.splits sum.splits option.splits)
qed

text \<open>
  C6 as stated fails outside the \<open>progress\<close> column: on the demonstration store, with
  the engine going on with every call, \<open>update_task_progress\<close> of the stored task 1 with
  2147483648 raises the wrapped \<open>DataError\<close>, and the task keeps progress 0.
\<close>

theorem update_task_progress_counterexample:
  "fst (get_task (open_session demo_db reliable) 1) =
     Inr (Some \<lparr>t_id = 1, t_user_id = 1, t_name = ''Exercise'', t_progress = 0,
                t_is_regular = True\<rparr>) \<and>
   fst (update_task_progress (open_session demo_db reliable) 1 2147483648) =
     Inl (StoreFailure UpdateTaskProgress ''DataError'') \<and>
   fst (get_task (snd (update_task_progress (open_session demo_db reliable) 1 2147483648)) 1) =
     Inr (Some \<lparr>t_id = 1, t_user_id = 1, t_name = ''Exercise'', t_progress = 0,
                t_is_regular = True\<rparr>)"
  by code_simp

text \<open>
  C6 (amended). For a stored task and every four-byte integer \<open>progress\<close> (from
  -2147483648 to 2147483647; negative or above 100 as well: nothing else validates it),
  on a store whose rows fit their columns and with the engine going on with the lookup,
  the commit and the query of the re-fetch, \<open>update_task_progress\<close> returns \<open>True\<close>,
  the committed task row has \<open>progress\<close> as passed and every other column as before,
  and \<open>get_task\<close> returns that row. For an integer outside the column the update of a
  stored task raises the wrapped store error and commits nothing; so whenever the update
  returns, the value was inside the column.
\<close>

theorem update_task_progress_get_task:
  "(find (\<lambda>t. t_id t = task_id) (tasks (working s)) = Some task \<and> int32 progress \<and>
    columns_hold (working s) \<and> raises s (calls s) = None \<and>
    raises s (Suc (calls s)) = None \<and> raises s (Suc (Suc (calls s))) = None \<longrightarrow>
      (\<exists>s1. update_task_progress s task_id progress = (Inr True, s1) \<and>
         fst (get_task s1 task_id) = Inr (Some (task\<lparr>t_progress := progress\<rparr>)) \<and>
         find (\<lambda>t. t_id t = task_id) (tasks (committed s1)) =
           Some (task\<lparr>t_progress := progress\<rparr>))) \<and>
   (find (\<lambda>t. t_id t = task_id) (tasks (working s)) = Some task \<and> \<not> int32 progress \<longrightarrow>
      (\<exists>c s1. update_task_progress s task_id progress =
           (Inl (StoreFailure UpdateTaskProgress c), s1) \<and>
         committed s1 = committed s \<and> working s1 = committed s)) \<and>
   (\<forall>v s1. update_task_progress s task_id progress = (Inr v, s1) \<longrightarrow> int32 progress)"
  using progress_in_range [of task_id s task progress]
    progress_out_of_range [of task_id s task progress]
    update_task_progress_Inr [of s task_id progress]
  by blast

theorem update_task_progress_get_task_witness:
  "find (\<lambda>t. t_id t = 1) (tasks (working (open_session demo_db reliable))) =
     Some \<lparr>t_id = 1, t_user_id = 1, t_name = ''Exercise'', t_progress = 0, t_is_regular = True\<rparr> \<and>
   int32 (- 250) \<and> columns_hold (working (open_session demo_db reliable)) \<and>
   (\<exists>s1. update_task_progress (open_session demo_db reliable) 1 (- 250) = (Inr True, s1) \<and>
      fst (get_task s1 1) =
        Inr (Some \<lparr>t_id = 1, t_user_id = 1, t_name = ''Exercise'', t_progress = - 250,
                   t_is_regular = True\<rparr>) \<and>
      find (\<lambda>t. t_id t = 1) (tasks (committed s1)) =
        Some \<lparr>t_id = 1, t_user_id = 1, t_name = ''Exercise'', t_progress = - 250,
               t_is_regular = True\<rparr>)"
proof -
  let ?s = "open_session demo_db reliable"
  let ?t = "\<lparr>t_id = 1, t_user_id = 1, t_name = ''Exercise'', t_progress = 0, t_is_regular = True\<rparr>"
  have h: "find (\<lambda>t. t_id t = 1) (tasks (working ?s)) = Some ?t \<and> int32 (- 250) \<and>
    columns_hold (working ?s) \<and> raises ?s (calls ?s) = None \<and>
    raises ?s (Suc (calls ?s)) = None \<and> raises ?s (Suc (Suc (calls ?s))) = None"
    by code_simp
  from update_task_progress_get_task [of 1 ?s ?t "- 250", THEN conjunct1, THEN mp, OF h] h
  show ?thesis by simp
qed

section \<open>Operations on an id without a row\<close>

lemma update_user_missing:
  assumes "working s = committed s" and "find (\<lambda>u. u_id u = k) (users (working s)) = None"
  shows "update_user s k name =
           (Inl (case raises s (calls s) of None \<Rightarrow> NotFound UserEntity k
                 | Some c \<Rightarrow> StoreFailure UpdateUser c), snd (store_call s))"
  using assms
  by (cases s) (simp add: update_user_def query_first_def store_call_def rollback_def
      split: option.splits)

lemma delete_user_missing:
  assumes "working s = committed s" and "find (\<lambda>u. u_id u = k) (users (working s)) = None"
  shows "delete_user s k =
           (Inl (case raises s (calls s) of None \<Rightarrow> NotFound UserEntity k
                 | Some c \<Rightarrow> StoreFailure DeleteUser c), snd (store_call s))"
  using assms
  by (cases s) (simp add: delete_user_def query_first_def store_call_def rollback_def
      split: option.splits)

lemma update_task_progress_missing:
  assumes "working s = committed s" and "find (\<lambda>t. t_id t = k) (tasks (working s)) = None"
  shows "update_task_progress s k progress =
           (Inl (case raises s (calls s) of None \<Rightarrow> NotFound TaskEntity k
                 | Some c \<Rightarrow> StoreFailure UpdateTaskProgress c), snd (store_call s))"
  using assms
  by (cases s) (simp add: update_task_progress_def query_first_def store_call_def rollback_def
      split: option.splits)

lemma delete_task_missing:
  assumes "working s = committed s" and "find (\<lambda>t. t_id t = k) (tasks (working s)) = None"
  shows "delete_task s k =
           (Inl (case raises s (calls s) of None \<Rightarrow> NotFound TaskEntity k
                 | Some c \<Rightarrow> StoreFailure DeleteTask c), snd (store_call s))"
  using assms
  by (cases s) (simp add: delete_task_def query_first_def store_call_def rollback_def
      split: option.splits)

text \<open>
  C2. On a session with nothing pending and an id that no row has, \<open>update_user\<close>,
  \<open>delete_user\<close>, \<open>update_task_progress\<close> and \<open>delete_task\<close> each end in an
  error, never in a result: the not-found error for the entity and the id when the
  engine answers the lookup, the wrapped store error when the lookup itself raises. The
  session afterwards is the one before, with the one store call counted (and logged, if
  it raised): no table, committed or pending, has changed.
\<close>

theorem missing_id_not_found:
  assumes "working s = committed s"
  shows "(find (\<lambda>u. u_id u = k) (users (working s)) = None \<longrightarrow>
            update_user s k name =
              (Inl (case raises s (calls s) of None \<Rightarrow> NotFound UserEntity k
                    | Some c \<Rightarrow> StoreFailure UpdateUser c), snd (store_call s)) \<and>
            delete_user s k =
              (Inl (case raises s (calls s) of None \<Rightarrow> NotFound UserEntity k
                    | Some c \<Rightarrow> StoreFailure DeleteUser c), snd (store_call s))) \<and>
         (find (\<lambda>t. t_id t = k) (tasks (working s)) = None \<longrightarrow>
            update_task_progress s k progress =
              (Inl (case raises s (calls s) of None \<Rightarrow> NotFound TaskEntity k
                    | Some c \<Rightarrow> StoreFailure UpdateTaskProgress c), snd (store_call s)) \<and>
            delete_task s k =
              (Inl (case raises s (calls s) of None \<Rightarrow> NotFound TaskEntity k
                    | Some c \<Rightarrow> StoreFailure DeleteTask c), snd (store_call s)))"
  using update_user_missing [OF assms] delete_user_missing [OF assms]
    update_task_progress_missing [OF assms] delete_task_missing [OF assms]
  by blast

theorem missing_id_not_found_witness:
  "working (open_session demo_db reliable) = committed (open_session demo_db reliable) \<and>
   find (\<lambda>u. u_id u = 7) (users (working (open_session demo_db reliable))) = None \<and>
   find (\<lambda>t. t_id t = 7) (tasks (working (open_session demo_db reliable))) = None \<and>
   update_user (open_session demo_db reliable) 7 ''Olga'' =
     (Inl (NotFound UserEntity 7), (open_session demo_db reliable)\<lparr>calls := 1\<rparr>) \<and>
   delete_user (open_session demo_db reliable) 7 =
     (Inl (NotFound UserEntity 7), (open_session demo_db reliable)\<lparr>calls := 1\<rparr>) \<and>
   update_task_progress (open_session demo_db reliable) 7 50 =
     (Inl (NotFound TaskEntity 7), (open_session demo_db reliable)\<lparr>calls := 1\<rparr>) \<and>
   delete_task (open_session demo_db reliable) 7 =
     (Inl (NotFound TaskEntity 7), (open_session demo_db reliable)\<lparr>calls := 1\<rparr>)"
  using missing_id_not_found [of "open_session demo_db reliable" 7 "''Olga''" 50]
  by (simp add: open_session_def demo_db_def reliable_def store_call_def)

section \<open>Empty strings in the extension updates\<close>

lemma truthy_str_empty: "truthy_str (Some []) = truthy_str None"
  by (simp add: truthy_str_def)

lemma rename_base_task_empty:
  "rename_base_task op task_id (Some []) = rename_base_task op task_id None"
  by (rule ext) (simp add: rename_base_task_def truthy_str_empty)

lemma update_regular_task_empty_name:
  "update_regular_task s task_id (Some []) weekdays = update_regular_task s task_id None weekdays"
  unfolding update_regular_task_def rename_base_task_empty ..

lemma update_regular_task_empty_weekdays:
  "update_regular_task s task_id name (Some []) = update_regular_task s task_id name None"
  unfolding update_regular_task_def truthy_str_empty ..

lemma update_irregular_task_empty_name:
  "update_irregular_task s task_id (Some []) od hdl = update_irregular_task s task_id None od hdl"
  unfolding update_irregular_task_def rename_base_task_empty ..

lemma update_regular_task_both_empty:
  assumes "find (\<lambda>r. r_task_id r = task_id) (regular_tasks (working s)) = Some r"
    and "columns_hold (working s)"
    and "raises s (calls s) = None" and "raises s (Suc (calls s)) = None"
  shows "\<exists>s1. update_regular_task s task_id (Some []) (Some []) = (Inr True, s1) \<and>
           working s1 = working s"
  using assms
  by (simp add: update_regular_task_def rename_base_task_def truthy_str_def
      query_first_answered commit_answered)

lemma update_irregular_task_empty_only:
  assumes "find (\<lambda>r. i_task_id r = task_id) (irregular_tasks (working s)) = Some r"
    and "columns_hold (working s)"
    and "raises s (calls s) = None" and "raises s (Suc (calls s)) = None"
  shows "\<exists>s1. update_irregular_task s task_id (Some []) None None = (Inr True, s1) \<and>
           working s1 = working s"
  using assms
  by (simp add: update_irregular_task_def rename_base_task_def truthy_str_def
      query_first_answered commit_answered)

lemma update_regular_task_empty_writes_nothing:
  assumes "update_regular_task s task_id (Some []) (Some []) = (Inr v, s1)"
  shows "working s1 = working s"
  using assms
  by (auto simp: update_regular_task_def rename_base_task_def truthy_str_def
      dest!: query_first_Inr commit_Inr split: prod.splits sum.splits option.splits)

lemma update_irregular_task_empty_writes_nothing:
  assumes "update_irregular_task s task_id (Some []) None None = (Inr v, s1)"
  shows "working s1 = working s"
  using assms
  by (auto simp: update_irregular_task_def rename_base_task_def truthy_str_def
      dest!: query_first_Inr commit_Inr split: prod.splits sum.splits option.splits)

text \<open>
  C10. In \<open>update_regular_task\<close> and \<open>update_irregular_task\<close> the empty string as
  \<open>name\<close>, and in \<open>update_regular_task\<close> the empty string as \<open>weekdays\<close>, is the
  omitted parameter: the call with \<open>Some []\<close> is the call with \<open>None\<close>, whatever
  the session and the other arguments. With only empty strings passed, the tables are as
  before whenever the call returns, and it returns \<open>True\<close> when an extension row is
  present, the rows of the store fit their columns and the engine goes on with the two
  store calls: the empty string cannot be stored through these operations.
\<close>

theorem empty_string_is_omitted:
  "update_regular_task s task_id (Some []) weekdays =
     update_regular_task s task_id None weekdays \<and>
   update_regular_task s task_id name (Some []) =
     update_regular_task s task_id name None \<and>
   update_irregular_task s task_id (Some []) optimal_deadline hard_deadline =
     update_irregular_task s task_id None optimal_deadline hard_deadline \<and>
   (\<forall>v s1. update_regular_task s task_id (Some []) (Some []) = (Inr v, s1) \<longrightarrow>
      working s1 = working s) \<and>
   (\<forall>v s1. update_irregular_task s task_id (Some []) None None = (Inr v, s1) \<longrightarrow>
      working s1 = working s) \<and>
   (columns_hold (working s) \<and> raises s (calls s) = None \<and>
    raises s (Suc (calls s)) = None \<longrightarrow>
      (find (\<lambda>r. r_task_id r = task_id) (regular_tasks (working s)) \<noteq> None \<longrightarrow>
         (\<exists>s1. update_regular_task s task_id (Some []) (Some []) = (Inr True, s1) \<and>
            working s1 = working s)) \<and>
      (find (\<lambda>r. i_task_id r = task_id) (irregular_tasks (working s)) \<noteq> None \<longrightarrow>
         (\<exists>s1. update_irregular_task s task_id (Some []) None None = (Inr True, s1) \<and>
            working s1 = working s)))"
proof (intro conjI allI impI)
  show "update_regular_task s task_id (Some []) weekdays =
      update_regular_task s task_id None weekdays"
    by (rule update_regular_task_empty_name)
  show "update_regular_task s task_id name (Some []) = update_regular_task s task_id name None"
    by (rule update_regular_task_empty_weekdays)
  show "update_irregular_task s task_id (Some []) optimal_deadline hard_deadline =
      update_irregular_task s task_id None optimal_deadline hard_deadline"
    by (rule update_irregular_task_empty_name)
next
  fix v s1
  assume "update_regular_task s task_id (Some []) (Some []) = (Inr v, s1)"
  then show "working s1 = working s"
    by (rule update_regular_task_empty_writes_nothing)
next
  fix v s1
  assume "update_irregular_task s task_id (Some []) None None = (Inr v, s1)"
  then show "working s1 = working s"
    by (rule update_irregular_task_empty_writes_nothing)
next
  assume "columns_hold (working s) \<and> raises s (calls s) = None \<and>
      raises s (Suc (calls s)) = None"
    and "find (\<lambda>r. r_task_id r = task_id) (regular_tasks (working s)) \<noteq> None"
  then show "\<exists>s1. update_regular_task s task_id (Some []) (Some []) = (Inr True, s1) \<and>
      working s1 = working s"
    using update_regular_task_both_empty [of task_id s] by auto
next
  assume "columns_hold (working s) \<and> raises s (calls s) = None \<and>
      raises s (Suc (calls s)) = None"
    and "find (\<lambda>r. i_task_id r = task_id) (irregular_tasks (working s)) \<noteq> None"
  then show "\<exists>s1. update_irregular_task s task_id (Some []) None None = (Inr True, s1) \<and>
      working s1 = working s"
    using update_irregular_task_empty_only [of task_id s] by auto
qed

theorem empty_string_is_omitted_witness:
  "update_regular_task (open_session demo_db reliable) 1 (Some []) (Some ''6,7'') =
     update_regular_task (open_session demo_db reliable) 1 None (Some ''6,7'') \<and>
   update_regular_task (open_session demo_db reliable) 1 (Some ''Run'') (Some []) =
     update_regular_task (open_session demo_db reliable) 1 (Some ''Run'') None \<and>
   columns_hold (working (open_session demo_db reliable)) \<and>
   (\<exists>s1. update_regular_task (open_session demo_db reliable) 1 (Some []) (Some []) = (Inr True, s1) \<and>
      working s1 = working (open_session demo_db reliable))"
proof -
  let ?s = "open_session demo_db reliable"
  note t = empty_string_is_omitted [of ?s 1 "Some ''6,7''" "Some ''Run''" None None]
  have h: "columns_hold (working ?s) \<and> raises ?s (calls ?s) = None \<and>
    raises ?s (Suc (calls ?s)) = None"
    by code_simp
  have e: "find (\<lambda>r. r_task_id r = 1) (regular_tasks (working ?s)) \<noteq> None"
    by code_simp
  from t h e show ?thesis
    by blast
qed

section \<open>Task details\<close>

lemma get_task_details_missing:
  assumes "raises s (calls s) = None" and "find (\<lambda>t. t_id t = k) (tasks (working s)) = None"
  shows "fst (get_task_details s k) = Inr None"
  using assms
  by (simp add: get_task_details_def get_task_def query_first_answered)

lemma get_task_details_stored:
  assumes "raises s (calls s) = None" and "find (\<lambda>t. t_id t = k) (tasks (working s)) = Some task"
  shows "\<exists>d. fst (get_task_details s k) = Inr (Some d) \<and>
           map_of d ''id'' = Some (PInt (t_id task)) \<and>
           map_of d ''name'' = Some (PStr (t_name task)) \<and>
           map_of d ''progress'' = Some (PInt (t_progress task)) \<and>
           map_of d ''is_regular'' = Some (PBool (t_is_regular task)) \<and>
           map_of d ''user_id'' = Some (PInt (t_user_id task)) \<and>
           map_of d ''weekdays'' =
             (if t_is_regular task
              then map_option (\<lambda>r. PStr (r_weekdays r))
                     (find (\<lambda>r. r_task_id r = k) (regular_tasks (working s)))
              else None) \<and>
           map_of d ''optimal_deadline'' =
             (if t_is_regular task then None
              else map_option (\<lambda>r. PDate (i_optimal_deadline r))
                     (find (\<lambda>r. i_task_id r = k) (irregular_tasks (working s)))) \<and>
           map_of d ''hard_deadline'' =
             (if t_is_regular task then None
              else map_option (\<lambda>r. PDate (i_hard_deadline r))
                     (find (\<lambda>r. i_task_id r = k) (irregular_tasks (working s))))"
proof -
  have k: "t_id task = k"
    using assms(2) by (rule find_Some_holds)
  show ?thesis
    using assms k
    by (simp add: get_task_details_def get_task_def query_first_answered
        regular_task_of_def irregular_task_of_def Let_def split: option.splits)
qed

lemma create_task_Inr:
  assumes "create_task s user_id name is_regular = (Inr k, s1)"
  shows "k = next_id (map t_id (tasks (working s))) \<and>
         working s1 = (working s)\<lparr>tasks := tasks (working s) @
           [\<lparr>t_id = k, t_user_id = user_id, t_name = name, t_progress = 0,
             t_is_regular = is_regular\<rparr>]\<rparr> \<and>
         columns_hold (working s1) \<and> committed s1 = working s1 \<and> raises s1 = raises s \<and>
         calls s1 = Suc (Suc (calls s)) \<and> errors s1 = errors s"
  using assms
  by (auto simp: create_task_def add_task_def Let_def
      dest!: commit_Inr read_id_Inr split: prod.splits sum.splits)

lemma create_regular_task_Inr:
  assumes "create_regular_task s user_id name weekdays = (Inr k, s1)"
  shows "k = next_id (map t_id (tasks (working s))) \<and>
         working s1 = (working s)
           \<lparr>tasks := tasks (working s) @
              [\<lparr>t_id = k, t_user_id = user_id, t_name = name, t_progress = 0,
                t_is_regular = True\<rparr>],
            regular_tasks := regular_tasks (working s) @
              [\<lparr>r_id = next_id (map r_id (regular_tasks (working s))), r_task_id = k,
                r_weekdays = weekdays\<rparr>]\<rparr> \<and>
         columns_hold (working s1) \<and> committed s1 = working s1 \<and> raises s1 = raises s \<and>
         calls s1 = Suc (Suc (Suc (calls s))) \<and> errors s1 = errors s"
proof -
  obtain s0 where base: "create_task s user_id name True = (Inr k, s0)"
    using assms
    by (auto simp: create_regular_task_def split: prod.splits sum.splits)
  note b = create_task_Inr [OF base]
  show ?thesis
    using assms base b
    by (auto simp: create_regular_task_def add_regular_task_def Let_def
        dest!: commit_Inr split: prod.splits sum.splits)
qed

lemma create_regular_task_details:
  assumes "create_regular_task s user_id name weekdays = (Inr new_id, s1)"
    and "extension_keys_hold (working s)" and "raises s1 (calls s1) = None"
  shows "fst (get_task_details s1 new_id) =
           Inr (Some [(''id'', PInt new_id), (''name'', PStr name), (''progress'', PInt 0),
                      (''is_regular'', PBool True), (''user_id'', PInt user_id),
                      (''weekdays'', PStr weekdays)])"
  using create_regular_task_Inr [OF assms(1)] assms(3) fresh_task_unreferenced(1) [OF assms(2)]
  by (simp add: get_task_details_def get_task_def query_first_answered regular_task_of_def
      Let_def find_fresh_key find_app_None)

lemma columns_hold_add_task:
  "columns_hold (db\<lparr>tasks := tasks db @ [t]\<rparr>) = (columns_hold db \<and> task_fits t)"
  by (auto simp: columns_hold_def)

lemma columns_hold_add_regular_task:
  "columns_hold (db\<lparr>regular_tasks := regular_tasks db @ [r]\<rparr>) =
     (columns_hold db \<and> regular_task_fits r)"
  by (auto simp: columns_hold_def)

lemma columns_hold_add_irregular_task:
  "columns_hold (db\<lparr>irregular_tasks := irregular_tasks db @ [r]\<rparr>) =
     (columns_hold db \<and> irregular_task_fits r)"
  by (auto simp: columns_hold_def)

lemma create_task_succeeds:
  assumes "columns_hold (working s)" and "int32 user_id" and "length name \<le> 200"
    and "int32 (next_id (map t_id (tasks (working s))))"
    and "raises s (calls s) = None" and "raises s (Suc (calls s)) = None"
  shows "create_task s user_id name is_regular =
           (Inr (next_id (map t_id (tasks (working s)))),
            s\<lparr>working := (working s)\<lparr>tasks := tasks (working s) @
                 [\<lparr>t_id = next_id (map t_id (tasks (working s))), t_user_id = user_id,
                   t_name = name, t_progress = 0, t_is_regular = is_regular\<rparr>]\<rparr>,
               calls := Suc (Suc (calls s)),
               committed := (working s)\<lparr>tasks := tasks (working s) @
                 [\<lparr>t_id = next_id (map t_id (tasks (working s))), t_user_id = user_id,
                   t_name = name, t_progress = 0, t_is_regular = is_regular\<rparr>]\<rparr>\<rparr>)"
  using assms
  by (simp add: create_task_def add_task_def Let_def commit_answered read_id_answered
      columns_hold_add_task task_fits_def int32_zero)

lemma create_regular_task_succeeds:
  assumes "columns_hold (working s)" and "int32 user_id" and "length name \<le> 200"
    and "length weekdays \<le> 20"
    and "int32 (next_id (map t_id (tasks (working s))))"
    and "int32 (next_id (map r_id (regular_tasks (working s))))"
    and "raises s (calls s) = None" and "raises s (Suc (calls s)) = None"
    and "raises s (Suc (Suc (calls s))) = None"
  shows "\<exists>new_id s1. create_regular_task s user_id name weekdays = (Inr new_id, s1)"
  using assms create_task_succeeds [OF assms(1,2,3,5,7,8), of True]
  by (simp add: create_regular_task_def add_regular_task_def Let_def commit_answered
      columns_hold_def task_fits_def regular_task_fits_def int32_zero)

text \<open>
  C1. When the engine answers the lookup, \<open>get_task_details\<close> returns \<open>None\<close> for an
  id without a task row, and for a stored task a dictionary with the base columns
  \<open>id\<close>, \<open>name\<close>, \<open>progress\<close>, \<open>is_regular\<close> and \<open>user_id\<close> of the row, with
  \<open>weekdays\<close> exactly when \<open>is_regular\<close> is true and the task has a regular
  extension row, and with \<open>optimal_deadline\<close> and \<open>hard_deadline\<close> exactly when
  \<open>is_regular\<close> is false and it has an irregular extension row. On a store whose
  extension rows each name a task, whenever \<open>create_regular_task\<close> returns an id, the
  details of that id are the given name, \<open>is_regular\<close> true, the given weekdays and
  progress 0, next to the new id and the user id; and it returns an id when the rows of
  the store and the two new rows fit their columns and the engine goes on with its three
  store calls.
\<close>

theorem get_task_details_merges:
  "(raises s (calls s) = None \<longrightarrow>
      (find (\<lambda>t. t_id t = k) (tasks (working s)) = None \<longrightarrow>
         fst (get_task_details s k) = Inr None) \<and>
      (\<forall>task. find (\<lambda>t. t_id t = k) (tasks (working s)) = Some task \<longrightarrow>
         (\<exists>d. fst (get_task_details s k) = Inr (Some d) \<and>
            map_of d ''id'' = Some (PInt (t_id task)) \<and>
            map_of d ''name'' = Some (PStr (t_name task)) \<and>
            map_of d ''progress'' = Some (PInt (t_progress task)) \<and>
            map_of d ''is_regular'' = Some (PBool (t_is_regular task)) \<and>
            map_of d ''user_id'' = Some (PInt (t_user_id task)) \<and>
            map_of d ''weekdays'' =
              (if t_is_regular task
               then map_option (\<lambda>r. PStr (r_weekdays r))
                      (find (\<lambda>r. r_task_id r = k) (regular_tasks (working s)))
               else None) \<and>
            map_of d ''optimal_deadline'' =
              (if t_is_regular task then None
               else map_option (\<lambda>r. PDate (i_optimal_deadline r))
                      (find (\<lambda>r. i_task_id r = k) (irregular_tasks (working s)))) \<and>
            map_of d ''hard_deadline'' =
              (if t_is_regular task then None
               else map_option (\<lambda>r. PDate (i_hard_deadline r))
                      (find (\<lambda>r. i_task_id r = k) (irregular_tasks (working s))))))) \<and>
   (\<forall>new_id s1.
      create_regular_task s user_id name weekdays = (Inr new_id, s1) \<and>
      extension_keys_hold (working s) \<and> raises s1 (calls s1) = None \<longrightarrow>
        fst (get_task_details s1 new_id) =
          Inr (Some [(''id'', PInt new_id), (''name'', PStr name), (''progress'', PInt 0),
                     (''is_regular'', PBool True), (''user_id'', PInt user_id),
                     (''weekdays'', PStr weekdays)])) \<and>
   (columns_hold (working s) \<and> int32 user_id \<and> length name \<le> 200 \<and>
    length weekdays \<le> 20 \<and> int32 (next_id (map t_id (tasks (working s)))) \<and>
    int32 (next_id (map r_id (regular_tasks (working s)))) \<and>
    raises s (calls s) = None \<and> raises s (Suc (calls s)) = None \<and>
    raises s (Suc (Suc (calls s))) = None \<longrightarrow>
      (\<exists>new_id s1. create_regular_task s user_id name weekdays = (Inr new_id, s1)))"
proof (intro conjI impI allI)
  assume "raises s (calls s) = None" and "find (\<lambda>t. t_id t = k) (tasks (working s)) = None"
  then show "fst (get_task_details s k) = Inr None"
    by (rule get_task_details_missing)
next
  fix task
  assume "raises s (calls s) = None"
    and "find (\<lambda>t. t_id t = k) (tasks (working s)) = Some task"
  then show "\<exists>d. fst (get_task_details s k) = Inr (Some d) \<and>
            map_of d ''id'' = Some (PInt (t_id task)) \<and>
            map_of d ''name'' = Some (PStr (t_name task)) \<and>
            map_of d ''progress'' = Some (PInt (t_progress task)) \<and>
            map_of d ''is_regular'' = Some (PBool (t_is_regular task)) \<and>
            map_of d ''user_id'' = Some (PInt (t_user_id task)) \<and>
            map_of d ''weekdays'' =
              (if t_is_regular task
               then map_option (\<lambda>r. PStr (r_weekdays r))
                      (find (\<lambda>r. r_task_id r = k) (regular_tasks (working s)))
               else None) \<and>
            map_of d ''optimal_deadline'' =
              (if t_is_regular task then None
               else map_option (\<lambda>r. PDate (i_optimal_deadline r))
                      (find (\<lambda>r. i_task_id r = k) (irregular_tasks (working s)))) \<and>
            map_of d ''hard_deadline'' =
              (if t_is_regular task then None
               else map_option (\<lambda>r. PDate (i_hard_deadline r))
                      (find (\<lambda>r. i_task_id r = k) (irregular_tasks (working s))))"
    by (rule get_task_details_stored)
next
  fix new_id s1
  assume "create_regular_task s user_id name weekdays = (Inr new_id, s1) \<and>
      extension_keys_hold (working s) \<and> raises s1 (calls s1) = None"
  then show "fst (get_task_details s1 new_id) =
          Inr (Some [(''id'', PInt new_id), (''name'', PStr name), (''progress'', PInt 0),
                     (''is_regular'', PBool True), (''user_id'', PInt user_id),
                     (''weekdays'', PStr weekdays)])"
    using create_regular_task_details by blast
next
  assume "columns_hold (working s) \<and> int32 user_id \<and> length name \<le> 200 \<and>
    length weekdays \<le> 20 \<and> int32 (next_id (map t_id (tasks (working s)))) \<and>
    int32 (next_id (map r_id (regular_tasks (working s)))) \<and>
    raises s (calls s) = None \<and> raises s (Suc (calls s)) = None \<and>
    raises s (Suc (Suc (calls s))) = None"
  then show "\<exists>new_id s1. create_regular_task s user_id name weekdays = (Inr new_id, s1)"
    using create_regular_task_succeeds [of s user_id name weekdays] by blast
qed

theorem get_task_details_merges_witness:
  "extension_keys_hold (working (open_session demo_db reliable)) \<and>
   fst (get_task_details (open_session demo_db reliable) 7) = Inr None \<and>
   fst (create_regular_task (open_session demo_db reliable) 2 ''Exercise'' ''1,2,3,4,5'') =
     Inr 3 \<and>
   fst (get_task_details
          (snd (create_regular_task (open_session demo_db reliable) 2 ''Exercise'' ''1,2,3,4,5''))
          3) =
     Inr (Some [(''id'', PInt 3), (''name'', PStr ''Exercise''), (''progress'', PInt 0),
                (''is_regular'', PBool True), (''user_id'', PInt 2),
                (''weekdays'', PStr ''1,2,3,4,5'')])"
proof -
  let ?s = "open_session demo_db reliable"
  let ?s1 = "snd (create_regular_task ?s 2 ''Exercise'' ''1,2,3,4,5'')"
  note t = get_task_details_merges [of ?s 7 2 "''Exercise''" "''1,2,3,4,5''"]
  have a: "raises ?s (calls ?s) = None"
    by code_simp
  have m: "find (\<lambda>t. t_id t = 7) (tasks (working ?s)) = None"
    by code_simp
  have none: "fst (get_task_details ?s 7) = Inr None"
    using t [THEN conjunct1, THEN mp, OF a, THEN conjunct1, THEN mp, OF m] .
  have r: "fst (create_regular_task ?s 2 ''Exercise'' ''1,2,3,4,5'') = Inr 3"
    by code_simp
  then have run: "create_regular_task ?s 2 ''Exercise'' ''1,2,3,4,5'' = (Inr 3, ?s1)"
    by (metis prod.collapse)
  have keys: "extension_keys_hold (working ?s)"
    by code_simp
  have answered: "raises ?s1 (calls ?s1) = None"
    by code_simp
  have "fst (get_task_details ?s1 3) =
     Inr (Some [(''id'', PInt 3), (''name'', PStr ''Exercise''), (''progress'', PInt 0),
                (''is_regular'', PBool True), (''user_id'', PInt 2),
                (''weekdays'', PStr ''1,2,3,4,5'')])"
    using t [THEN conjunct2, THEN conjunct1, THEN spec, THEN spec, THEN mp,
        OF conjI [OF run conjI [OF keys answered]]] .
  with keys none r show ?thesis
    by (intro conjI)
qed

section \<open>The composed creates\<close>

lemma fresh_task_not_stored:
  "find (\<lambda>t. t_id t = next_id (map t_id (tasks db))) (tasks db) = None"
  using next_id_fresh [of _ "map t_id (tasks db)"] by (force simp: find_None_iff)

lemma create_regular_task_own_error:
  assumes "create_regular_task s user_id name weekdays =
             (Inl (StoreFailure CreateRegularTask c), s1)"
    and "extension_keys_hold (working s)"
  shows "\<exists>k. find (\<lambda>t. t_id t = k) (tasks (working s)) = None \<and>
           find (\<lambda>t. t_id t = k) (tasks (committed s1)) =
             Some \<lparr>t_id = k, t_user_id = user_id, t_name = name, t_progress = 0,
                    t_is_regular = True\<rparr> \<and>
           find (\<lambda>r. r_task_id r = k) (regular_tasks (committed s1)) = None \<and>
           find (\<lambda>r. i_task_id r = k) (irregular_tasks (committed s1)) = None \<and>
           working s1 = committed s1"
proof -
  obtain k s0 where base: "create_task s user_id name True = (Inr k, s0)"
    using assms(1)
    by (auto simp: create_regular_task_def create_task_def Let_def
        split: prod.splits sum.splits)
  note b = create_task_Inr [OF base]
  have "find (\<lambda>t. t_id t = k) (tasks (working s)) = None \<and>
      find (\<lambda>t. t_id t = k) (tasks (committed s1)) =
        Some \<lparr>t_id = k, t_user_id = user_id, t_name = name, t_progress = 0,
               t_is_regular = True\<rparr> \<and>
      find (\<lambda>r. r_task_id r = k) (regular_tasks (committed s1)) = None \<and>
      find (\<lambda>r. i_task_id r = k) (irregular_tasks (committed s1)) = None \<and>
      working s1 = committed s1"
    using assms(1) base b fresh_task_unreferenced [OF assms(2)]
      fresh_task_not_stored [of "working s"]
    by (auto simp: create_regular_task_def add_regular_task_def rollback_def Let_def
        find_fresh_key dest!: commit_Inl split: prod.splits sum.splits)
  then show ?thesis ..
qed

lemma create_irregular_task_own_error:
  assumes "create_irregular_task s user_id name optimal_deadline hard_deadline =
             (Inl (StoreFailure CreateIrregularTask c), s1)"
    and "extension_keys_hold (working s)"
  shows "\<exists>k. find (\<lambda>t. t_id t = k) (tasks (working s)) = None \<and>
           find (\<lambda>t. t_id t = k) (tasks (committed s1)) =
             Some \<lparr>t_id = k, t_user_id = user_id, t_name = name, t_progress = 0,
                    t_is_regular = False\<rparr> \<and>
           find (\<lambda>r. r_task_id r = k) (regular_tasks (committed s1)) = None \<and>
           find (\<lambda>r. i_task_id r = k) (irregular_tasks (committed s1)) = None \<and>
           working s1 = committed s1"
proof -
  obtain k s0 where base: "create_task s user_id name False = (Inr k, s0)"
    using assms(1)
    by (auto simp: create_irregular_task_def create_task_def Let_def
        split: prod.splits sum.splits)
  note b = create_task_Inr [OF base]
  have "find (\<lambda>t. t_id t = k) (tasks (working s)) = None \<and>
      find (\<lambda>t. t_id t = k) (tasks (committed s1)) =
        Some \<lparr>t_id = k, t_user_id = user_id, t_name = name, t_progress = 0,
               t_is_regular = False\<rparr> \<and>
      find (\<lambda>r. r_task_id r = k) (regular_tasks (committed s1)) = None \<and>
      find (\<lambda>r. i_task_id r = k) (irregular_tasks (committed s1)) = None \<and>
      working s1 = committed s1"
    using assms(1) base b fresh_task_unreferenced [OF assms(2)]
      fresh_task_not_stored [of "working s"]
    by (auto simp: create_irregular_task_def add_irregular_task_def rollback_def Let_def
        find_fresh_key dest!: commit_Inl split: prod.splits sum.splits)
  then show ?thesis ..
qed

lemma create_regular_task_second_commit_fails:
  assumes "columns_hold (working s)" and "int32 user_id" and "length name \<le> 200"
    and "int32 (next_id (map t_id (tasks (working s))))"
    and "raises s (calls s) = None" and "raises s (Suc (calls s)) = None"
    and "raises s (Suc (Suc (calls s))) = Some c"
  shows "\<exists>s1. create_regular_task s user_id name weekdays =
           (Inl (StoreFailure CreateRegularTask c), s1)"
  using assms(7) create_task_succeeds [OF assms(1-6), of True]
  by (simp add: create_regular_task_def add_regular_task_def Let_def commit_raised)

lemma create_irregular_task_second_commit_fails:
  assumes "columns_hold (working s)" and "int32 user_id" and "length name \<le> 200"
    and "int32 (next_id (map t_id (tasks (working s))))"
    and "raises s (calls s) = None" and "raises s (Suc (calls s)) = None"
    and "raises s (Suc (Suc (calls s))) = Some c"
  shows "\<exists>s1. create_irregular_task s user_id name optimal_deadline hard_deadline =
           (Inl (StoreFailure CreateIrregularTask c), s1)"
  using assms(7) create_task_succeeds [OF assms(1-6), of False]
  by (simp add: create_irregular_task_def add_irregular_task_def Let_def commit_raised)

text \<open>
  C3. The composed creates are not atomic. On a store whose extension rows each name a
  task and whose rows fit their columns, when the base task row fits its columns and the
  engine goes on with the two store calls of \<open>create_task\<close> (its commit and the read of
  the new key) and raises at the commit of the extension row, \<open>create_regular_task\<close>
  and \<open>create_irregular_task\<close> raise the wrapped store error, and the committed tables
  then hold a task row that was not there before, with the given user, name and
  \<open>is_regular\<close> flag, to which no row of \<open>regular_tasks\<close> or \<open>irregular_tasks\<close>
  refers. The same holds whenever a composed create raises the error of its own handler,
  whatever made the store refuse the extension row.
\<close>

theorem composed_create_not_atomic:
  "(extension_keys_hold (working s) \<and> columns_hold (working s) \<and> int32 user_id \<and>
    length name \<le> 200 \<and> int32 (next_id (map t_id (tasks (working s)))) \<and>
    raises s (calls s) = None \<and> raises s (Suc (calls s)) = None \<and>
    raises s (Suc (Suc (calls s))) = Some c \<longrightarrow>
      (\<exists>k s1.
         create_regular_task s user_id name weekdays =
           (Inl (StoreFailure CreateRegularTask c), s1) \<and>
         find (\<lambda>t. t_id t = k) (tasks (working s)) = None \<and>
         find (\<lambda>t. t_id t = k) (tasks (committed s1)) =
           Some \<lparr>t_id = k, t_user_id = user_id, t_name = name, t_progress = 0,
                  t_is_regular = True\<rparr> \<and>
         find (\<lambda>r. r_task_id r = k) (regular_tasks (committed s1)) = None \<and>
         find (\<lambda>r. i_task_id r = k) (irregular_tasks (committed s1)) = None \<and>
         working s1 = committed s1) \<and>
      (\<exists>k s1.
         create_irregular_task s user_id name optimal_deadline hard_deadline =
           (Inl (StoreFailure CreateIrregularTask c), s1) \<and>
         find (\<lambda>t. t_id t = k) (tasks (working s)) = None \<and>
         find (\<lambda>t. t_id t = k) (tasks (committed s1)) =
           Some \<lparr>t_id = k, t_user_id = user_id, t_name = name, t_progress = 0,
                  t_is_regular = False\<rparr> \<and>
         find (\<lambda>r. r_task_id r = k) (regular_tasks (committed s1)) = None \<and>
         find (\<lambda>r. i_task_id r = k) (irregular_tasks (committed s1)) = None \<and>
         working s1 = committed s1)) \<and>
   (\<forall>e s1.
      extension_keys_hold (working s) \<and>
      create_regular_task s user_id name weekdays =
        (Inl (StoreFailure CreateRegularTask e), s1) \<longrightarrow>
        (\<exists>k. find (\<lambda>t. t_id t = k) (tasks (working s)) = None \<and>
           find (\<lambda>t. t_id t = k) (tasks (committed s1)) =
             Some \<lparr>t_id = k, t_user_id = user_id, t_name = name, t_progress = 0,
                    t_is_regular = True\<rparr> \<and>
           find (\<lambda>r. r_task_id r = k) (regular_tasks (committed s1)) = None \<and>
           find (\<lambda>r. i_task_id r = k) (irregular_tasks (committed s1)) = None \<and>
           working s1 = committed s1)) \<and>
   (\<forall>e s1.
      extension_keys_hold (working s) \<and>
      create_irregular_task s user_id name optimal_deadline hard_deadline =
        (Inl (StoreFailure CreateIrregularTask e), s1) \<longrightarrow>
        (\<exists>k. find (\<lambda>t. t_id t = k) (tasks (working s)) = None \<and>
           find (\<lambda>t. t_id t = k) (tasks (committed s1)) =
             Some \<lparr>t_id = k, t_user_id = user_id, t_name = name, t_progress = 0,
                    t_is_regular = False\<rparr> \<and>
           find (\<lambda>r. r_task_id r = k) (regular_tasks (committed s1)) = None \<and>
           find (\<lambda>r. i_task_id r = k) (irregular_tasks (committed s1)) = None \<and>
           working s1 = committed s1))"
proof (intro conjI impI allI)
  assume h: "extension_keys_hold (working s) \<and> columns_hold (working s) \<and> int32 user_id \<and>
    length name \<le> 200 \<and> int32 (next_id (map t_id (tasks (working s)))) \<and>
    raises s (calls s) = None \<and> raises s (Suc (calls s)) = None \<and>
    raises s (Suc (Suc (calls s))) = Some c"
  then obtain s1 where r: "create_regular_task s user_id name weekdays =
      (Inl (StoreFailure CreateRegularTask c), s1)"
    using create_regular_task_second_commit_fails [of s user_id name c weekdays] by blast
  from create_regular_task_own_error [OF r] h r
  show "\<exists>k s1.
         create_regular_task s user_id name weekdays =
           (Inl (StoreFailure CreateRegularTask c), s1) \<and>
         find (\<lambda>t. t_id t = k) (tasks (working s)) = None \<and>
         find (\<lambda>t. t_id t = k) (tasks (committed s1)) =
           Some \<lparr>t_id = k, t_user_id = user_id, t_name = name, t_progress = 0,
                  t_is_regular = True\<rparr> \<and>
         find (\<lambda>r. r_task_id r = k) (regular_tasks (committed s1)) = None \<and>
         find (\<lambda>r. i_task_id r = k) (irregular_tasks (committed s1)) = None \<and>
         working s1 = committed s1"
    by blast
  from h obtain s2 where i: "create_irregular_task s user_id name optimal_deadline hard_deadline =
      (Inl (StoreFailure CreateIrregularTask c), s2)"
    using create_irregular_task_second_commit_fails
      [of s user_id name c optimal_deadline hard_deadline] by blast
  from create_irregular_task_own_error [OF i] h i
  show "\<exists>k s1.
         create_irregular_task s user_id name optimal_deadline hard_deadline =
           (Inl (StoreFailure CreateIrregularTask c), s1) \<and>
         find (\<lambda>t. t_id t = k) (tasks (working s)) = None \<and>
         find (\<lambda>t. t_id t = k) (tasks (committed s1)) =
           Some \<lparr>t_id = k, t_user_id = user_id, t_name = name, t_progress = 0,
                  t_is_regular = False\<rparr> \<and>
         find (\<lambda>r. r_task_id r = k) (regular_tasks (committed s1)) = None \<and>
         find (\<lambda>r. i_task_id r = k) (irregular_tasks (committed s1)) = None \<and>
         working s1 = committed s1"
    by blast
next
  fix e s1
  assume "extension_keys_hold (working s) \<and>
      create_regular_task s user_id name weekdays =
        (Inl (StoreFailure CreateRegularTask e), s1)"
  then show "\<exists>k. find (\<lambda>t. t_id t = k) (tasks (working s)) = None \<and>
           find (\<lambda>t. t_id t = k) (tasks (committed s1)) =
             Some \<lparr>t_id = k, t_user_id = user_id, t_name = name, t_progress = 0,
                    t_is_regular = True\<rparr> \<and>
           find (\<lambda>r. r_task_id r = k) (regular_tasks (committed s1)) = None \<and>
           find (\<lambda>r. i_task_id r = k) (irregular_tasks (committed s1)) = None \<and>
           working s1 = committed s1"
    using create_regular_task_own_error by blast
next
  fix e s1
  assume "extension_keys_hold (working s) \<and>
      create_irregular_task s user_id name optimal_deadline hard_deadline =
        (Inl (StoreFailure CreateIrregularTask e), s1)"
  then show "\<exists>k. find (\<lambda>t. t_id t = k) (tasks (working s)) = None \<and>
           find (\<lambda>t. t_id t = k) (tasks (committed s1)) =
             Some \<lparr>t_id = k, t_user_id = user_id, t_name = name, t_progress = 0,
                    t_is_regular = False\<rparr> \<and>
           find (\<lambda>r. r_task_id r = k) (regular_tasks (committed s1)) = None \<and>
           find (\<lambda>r. i_task_id r = k) (irregular_tasks (committed s1)) = None \<and>
           working s1 = committed s1"
    using create_irregular_task_own_error by blast
qed

theorem composed_create_not_atomic_witness:
  "extension_keys_hold (working (open_session demo_db (fails_at 2 ''connection lost''))) \<and>
   columns_hold (working (open_session demo_db (fails_at 2 ''connection lost''))) \<and>
   fst (create_regular_task (open_session demo_db (fails_at 2 ''connection lost'')) 2 ''Run''
          ''6,7'') = Inl (StoreFailure CreateRegularTask ''connection lost'') \<and>
   (\<exists>k s1.
      create_regular_task (open_session demo_db (fails_at 2 ''connection lost'')) 2 ''Run'' ''6,7'' =
        (Inl (StoreFailure CreateRegularTask ''connection lost''), s1) \<and>
      find (\<lambda>t. t_id t = k)
        (tasks (working (open_session demo_db (fails_at 2 ''connection lost'')))) = None \<and>
      find (\<lambda>t. t_id t = k) (tasks (committed s1)) =
        Some \<lparr>t_id = k, t_user_id = 2, t_name = ''Run'', t_progress = 0, t_is_regular = True\<rparr> \<and>
      find (\<lambda>r. r_task_id r = k) (regular_tasks (committed s1)) = None \<and>
      find (\<lambda>r. i_task_id r = k) (irregular_tasks (committed s1)) = None \<and>
      working s1 = committed s1)"
proof -
  let ?s = "open_session demo_db (fails_at 2 ''connection lost'')"
  have h: "extension_keys_hold (working ?s) \<and> columns_hold (working ?s) \<and> int32 2 \<and>
    length ''Run'' \<le> 200 \<and> int32 (next_id (map t_id (tasks (working ?s)))) \<and>
    raises ?s (calls ?s) = None \<and> raises ?s (Suc (calls ?s)) = None \<and>
    raises ?s (Suc (Suc (calls ?s))) = Some ''connection lost''"
    by code_simp
  have r: "fst (create_regular_task ?s 2 ''Run'' ''6,7'') =
      Inl (StoreFailure CreateRegularTask ''connection lost'')"
    by code_simp
  from composed_create_not_atomic [of ?s 2 "''Run''" "''connection lost''" "''6,7''",
      THEN conjunct1, THEN mp, OF h, THEN conjunct1] h r
  show ?thesis by blast
qed

section \<open>Identifiers\<close>









section \<open>Deleting a user\<close>

lemma columns_hold_delete_task_rows:
  "columns_hold db \<Longrightarrow> columns_hold (delete_task_rows ks db)"
  by (auto simp: columns_hold_def delete_task_rows_def list_all_iff)

lemma columns_hold_session_delete_user:
  "columns_hold (working s) \<Longrightarrow> columns_hold (working (session_delete_user user s))"
proof -
  assume h: "columns_hold (working s)"
  have "columns_hold ((working s)\<lparr>users := filter (\<lambda>u. u_id u \<noteq> u_id user) (users (working s)),
      user_ids := filter (\<lambda>i. ui_id i \<notin> set (map ui_id (filter (\<lambda>i. ui_user_id i = u_id user)
        (user_ids (working s))))) (user_ids (working s))\<rparr>)"
    using h by (auto simp: columns_hold_def list_all_iff)
  then show ?thesis
    by (simp add: session_delete_user_def Let_def columns_hold_delete_task_rows)
qed

lemma delete_user_succeeds:
  assumes "find (\<lambda>u. u_id u = user_id) (users (working s)) = Some user"
    and "columns_hold (working s)"
    and "raises s (calls s) = None" and "raises s (Suc (calls s)) = None"
  shows "\<exists>s1. delete_user s user_id = (Inr True, s1)"
proof -
  let ?s0 = "s\<lparr>calls := Suc (calls s)\<rparr>"
  have w: "working (session_delete_user user ?s0) = working (session_delete_user user s)"
    by (simp add: session_delete_user_def Let_def)
  have c: "columns_hold (working (session_delete_user user ?s0))"
    unfolding w using assms(2) by (rule columns_hold_session_delete_user)
  have r: "raises (session_delete_user user ?s0) (calls (session_delete_user user ?s0)) = None"
    using assms(4) by (simp add: session_delete_user_def Let_def)
  show ?thesis
    using assms(1,3) commit_answered [OF r c]
    by (simp add: delete_user_def query_first_answered)
qed

lemma delete_user_Inr:
  assumes "delete_user s user_id = (Inr v, s1)"
  shows "\<exists>user. find (\<lambda>u. u_id u = user_id) (users (working s)) = Some user \<and>
           working s1 = working (session_delete_user user s) \<and>
           columns_hold (working s1) \<and>
           committed s1 = working s1 \<and> raises s1 = raises s \<and>
           calls s1 = Suc (Suc (calls s)) \<and> errors s1 = errors s \<and> v"
proof -
  let ?s0 = "s\<lparr>calls := Suc (calls s)\<rparr>"
  from assms have "\<exists>user. Some user = find (\<lambda>u. u_id u = user_id) (users (working s)) \<and>
      commit (session_delete_user user ?s0) = (Inr (), s1) \<and> v"
    by (auto simp: delete_user_def dest!: query_first_Inr
        split: prod.splits sum.splits option.splits)
  then obtain user where f: "find (\<lambda>u. u_id u = user_id) (users (working s)) = Some user"
    and c: "commit (session_delete_user user ?s0) = (Inr (), s1)" and v: v
    by metis
  have w: "working (session_delete_user user ?s0) = working (session_delete_user user s)"
    "raises (session_delete_user user ?s0) = raises s"
    "calls (session_delete_user user ?s0) = Suc (calls s)"
    "errors (session_delete_user user ?s0) = errors s"
    by (simp_all add: session_delete_user_def Let_def)
  from commit_Inr [OF c] w
  have "working s1 = working (session_delete_user user s) \<and>
           columns_hold (working s1) \<and>
           committed s1 = working s1 \<and> raises s1 = raises s \<and>
           calls s1 = Suc (Suc (calls s)) \<and> errors s1 = errors s"
    by auto
  with f v show ?thesis by blast
qed

lemma deleted_user_tasks_gone:
  assumes "t \<in> set (tasks (working s))" and "t_user_id t = u_id user"
  shows "find (\<lambda>x. t_id x = t_id t) (tasks (working (session_delete_user user s))) = None"
  using assms
  by (auto simp: session_delete_user_def delete_task_rows_def Let_def find_None_iff)

lemma deleted_user_no_tasks:
  "filter (\<lambda>t. t_user_id t = u_id user) (tasks (working (session_delete_user user s))) = []"
  by (auto simp: session_delete_user_def delete_task_rows_def Let_def filter_empty_conv)

lemma deleted_user_identifier_gone:
  assumes "\<forall>j\<in>set (user_ids (working s)).
             ui_identifier j = a \<and> ui_identifier_type j = b \<longrightarrow> ui_user_id j = u_id user"
  shows "find (\<lambda>i. ui_identifier i = a \<and> ui_identifier_type i = b)
           (user_ids (working (session_delete_user user s))) = None"
  using assms
  by (auto simp: session_delete_user_def delete_task_rows_def Let_def find_None_iff)

lemma deleted_user_not_returned:
  assumes "find (\<lambda>u. u_id u = x) (users (working (session_delete_user user s))) = Some u"
  shows "u_id u \<noteq> u_id user"
  using assms
  by (auto simp: session_delete_user_def delete_task_rows_def Let_def find_Some_iff
      dest!: nth_mem)

text \<open>
  C7 as stated fails where two users hold the same pair of identifier and type: on
  \<open>shared_db\<close> the pair is Ivan's, \<open>delete_user\<close> of Ivan succeeds, and the lookup
  of the pair then returns Anna, not \<open>None\<close>.
\<close>

theorem delete_user_counterexample:
  "\<lparr>ui_id = 1, ui_user_id = 1, ui_identifier = ''123456789'', ui_identifier_type = ''telegram''\<rparr>
     \<in> set (user_ids (working (open_session shared_db reliable))) \<and>
   fst (delete_user (open_session shared_db reliable) 1) = Inr True \<and>
   fst (get_user_by_identifier (snd (delete_user (open_session shared_db reliable) 1))
          ''123456789'' ''telegram'') = Inr (Some \<lparr>u_id = 2, u_name = ''Anna''\<rparr>)"
  by code_simp

text \<open>
  C7 (amended). After \<open>delete_user\<close> succeeds (the engine answering the fetch that
  follows), \<open>get_task\<close> and \<open>get_task_details\<close> of each task id the user had
  return \<open>None\<close>, \<open>get_user_tasks\<close> of the user returns the empty list, and
  \<open>get_user_by_identifier\<close> returns \<open>None\<close> for each pair of the user that no other
  user's row carries; whatever the pair, it never returns the deleted user.
  \<open>delete_user\<close> succeeds for a stored user when the rows of the store fit their
  columns and the engine goes on with its two store calls.
\<close>

theorem delete_user_cascades:
  "(\<forall>v s1. delete_user s user_id = (Inr v, s1) \<and> raises s1 (calls s1) = None \<longrightarrow>
      v \<and>
      (\<forall>t\<in>set (tasks (working s)). t_user_id t = user_id \<longrightarrow>
         fst (get_task s1 (t_id t)) = Inr None \<and>
         fst (get_task_details s1 (t_id t)) = Inr None) \<and>
      fst (get_user_tasks s1 user_id) = Inr [] \<and>
      (\<forall>i\<in>set (user_ids (working s)).
         ui_user_id i = user_id \<and>
         (\<forall>j\<in>set (user_ids (working s)).
            ui_identifier j = ui_identifier i \<and>
            ui_identifier_type j = ui_identifier_type i \<longrightarrow> ui_user_id j = user_id) \<longrightarrow>
         fst (get_user_by_identifier s1 (ui_identifier i) (ui_identifier_type i)) = Inr None) \<and>
      (\<forall>a b u. fst (get_user_by_identifier s1 a b) = Inr (Some u) \<longrightarrow> u_id u \<noteq> user_id)) \<and>
   (find (\<lambda>u. u_id u = user_id) (users (working s)) \<noteq> None \<and> columns_hold (working s) \<and>
    raises s (calls s) = None \<and> raises s (Suc (calls s)) = None \<longrightarrow>
      (\<exists>s1. delete_user s user_id = (Inr True, s1)))"
proof (intro conjI allI impI)
  fix v s1
  assume h: "delete_user s user_id = (Inr v, s1) \<and> raises s1 (calls s1) = None"
  then obtain user where f: "find (\<lambda>u. u_id u = user_id) (users (working s)) = Some user"
    and w: "working s1 = working (session_delete_user user s)" and v: v
    using delete_user_Inr [of s user_id v s1] by blast
  from h have a: "raises s1 (calls s1) = None" ..
  have k: "u_id user = user_id"
    using f by (rule find_Some_holds)
  have tasks_gone: "fst (get_task s1 (t_id t)) = Inr None \<and>
      fst (get_task_details s1 (t_id t)) = Inr None"
    if "t \<in> set (tasks (working s))" and "t_user_id t = user_id" for t
    using deleted_user_tasks_gone [of t s user] that k a w
    by (simp add: get_task_answered get_task_details_missing)
  have none_left: "fst (get_user_tasks s1 user_id) = Inr []"
    using deleted_user_no_tasks [of user s] k a w by (simp add: get_user_tasks_answered)
  have ident_gone: "fst (get_user_by_identifier s1 (ui_identifier i) (ui_identifier_type i)) = Inr None"
    if "\<forall>j\<in>set (user_ids (working s)).
          ui_identifier j = ui_identifier i \<and>
          ui_identifier_type j = ui_identifier_type i \<longrightarrow> ui_user_id j = user_id" for i
    using deleted_user_identifier_gone [of s "ui_identifier i" "ui_identifier_type i" user] that k a w
    by (simp add: get_user_by_identifier_answered)
  have never: "u_id u \<noteq> user_id" if "fst (get_user_by_identifier s1 a b) = Inr (Some u)" for a b u
    using that deleted_user_not_returned [of _ user s u] k a w
    by (auto simp: get_user_by_identifier_answered split: option.splits)
  show v by (rule v)
  show "\<forall>t\<in>set (tasks (working s)). t_user_id t = user_id \<longrightarrow>
         fst (get_task s1 (t_id t)) = Inr None \<and>
         fst (get_task_details s1 (t_id t)) = Inr None"
    using tasks_gone by blast
  show "fst (get_user_tasks s1 user_id) = Inr []"
    by (rule none_left)
  show "\<forall>i\<in>set (user_ids (working s)).
         ui_user_id i = user_id \<and>
         (\<forall>j\<in>set (user_ids (working s)).
            ui_identifier j = ui_identifier i \<and>
            ui_identifier_type j = ui_identifier_type i \<longrightarrow> ui_user_id j = user_id) \<longrightarrow>
         fst (get_user_by_identifier s1 (ui_identifier i) (ui_identifier_type i)) = Inr None"
    using ident_gone by blast
  fix a b u
  assume "fst (get_user_by_identifier s1 a b) = Inr (Some u)"
  then show "u_id u \<noteq> user_id" by (rule never)
next
  assume "find (\<lambda>u. u_id u = user_id) (users (working s)) \<noteq> None \<and> columns_hold (working s) \<and>
    raises s (calls s) = None \<and> raises s (Suc (calls s)) = None"
  then show "\<exists>s1. delete_user s user_id = (Inr True, s1)"
    using delete_user_succeeds [of user_id s] by auto
qed

theorem delete_user_cascades_witness:
  "find (\<lambda>u. u_id u = 1) (users (working (open_session demo_db reliable))) =
     Some \<lparr>u_id = 1, u_name = ''Ivan''\<rparr> \<and>
   (\<exists>s1. delete_user (open_session demo_db reliable) 1 = (Inr True, s1) \<and>
      fst (get_task s1 1) = Inr None \<and>
      fst (get_task_details s1 2) = Inr None \<and>
      fst (get_user_tasks s1 1) = Inr [] \<and>
      fst (get_user_by_identifier s1 ''123456789'' ''telegram'') = Inr None)"
proof -
  let ?s = "open_session demo_db reliable"
  let ?t1 = "\<lparr>t_id = 1, t_user_id = 1, t_name = ''Exercise'', t_progress = 0, t_is_regular = True\<rparr>"
  let ?t2 = "\<lparr>t_id = 2, t_user_id = 1, t_name = ''Report'', t_progress = 0, t_is_regular = False\<rparr>"
  let ?i = "\<lparr>ui_id = 1, ui_user_id = 1, ui_identifier = ''123456789'',
             ui_identifier_type = ''telegram''\<rparr>"
  have h1: "find (\<lambda>u. u_id u = 1) (users (working ?s)) = Some \<lparr>u_id = 1, u_name = ''Ivan''\<rparr>"
    by (simp add: open_session_def demo_db_def)
  have h2: "find (\<lambda>u. u_id u = 1) (users (working ?s)) \<noteq> None \<and> columns_hold (working ?s) \<and>
    raises ?s (calls ?s) = None \<and> raises ?s (Suc (calls ?s)) = None"
    by code_simp
  have ts: "?t1 \<in> set (tasks (working ?s))" "?t2 \<in> set (tasks (working ?s))"
    by (simp_all add: open_session_def demo_db_def)
  have ids: "?i \<in> set (user_ids (working ?s))"
    "\<forall>j\<in>set (user_ids (working ?s)).
       ui_identifier j = ui_identifier ?i \<and> ui_identifier_type j = ui_identifier_type ?i \<longrightarrow>
       ui_user_id j = 1"
    by (simp_all add: open_session_def demo_db_def)
  note c = delete_user_cascades [of ?s 1]
  obtain s1 where d: "delete_user ?s 1 = (Inr True, s1)"
    using c [THEN conjunct2, THEN mp, OF h2] by blast
  have a: "raises s1 (calls s1) = None"
    using delete_user_Inr [OF d] by (auto simp: open_session_def reliable_def)
  from c [THEN conjunct1, THEN spec, THEN spec, THEN mp, OF conjI, OF d a]
  have t: "\<forall>t\<in>set (tasks (working ?s)). t_user_id t = 1 \<longrightarrow>
              fst (get_task s1 (t_id t)) = Inr None \<and>
              fst (get_task_details s1 (t_id t)) = Inr None"
    and u: "fst (get_user_tasks s1 1) = Inr []"
    and i: "\<forall>i\<in>set (user_ids (working ?s)).
              ui_user_id i = 1 \<and>
              (\<forall>j\<in>set (user_ids (working ?s)).
                 ui_identifier j = ui_identifier i \<and>
                 ui_identifier_type j = ui_identifier_type i \<longrightarrow> ui_user_id j = 1) \<longrightarrow>
              fst (get_user_by_identifier s1 (ui_identifier i) (ui_identifier_type i)) = Inr None"
    by blast+
  have "fst (get_task s1 1) = Inr None"
    using t ts(1) by fastforce
  moreover have "fst (get_task_details s1 2) = Inr None"
    using t ts(2) by fastforce
  moreover have "fst (get_user_by_identifier s1 ''123456789'' ''telegram'') = Inr None"
    using i ids by fastforce
  ultimately show ?thesis
    using h1 d u by blast
qed

section \<open>The extension updates\<close>



lemma task_fits_name:
  "task_fits (t\<lparr>t_name := n\<rparr>) =
     (int32 (t_id t) \<and> int32 (t_user_id t) \<and> length n \<le> 200 \<and> int32 (t_progress t))"
  by (simp add: task_fits_def)

lemma columns_hold_set_task_name:
  assumes "columns_hold (working s)" and "length n \<le> 200"
  shows "columns_hold (working (set_task_name k n s))"
  using assms
  by (auto simp: set_task_name_def columns_hold_def list_all_iff task_fits_def)















section \<open>Store errors\<close>

text \<open>
  What each mutating method does when the store raises at one of its store calls. Every
  store call of these methods is inside the method's \<open>try\<close>.
\<close>

lemma create_user_store_error:
  assumes "create_user s name = (r, s1)"
  shows "(errors s1 = errors s \<or> (\<exists>n c. errors s1 = (n, c) # errors s)) \<and>
         (\<forall>n c. errors s1 = (n, c) # errors s \<longrightarrow>
            calls s \<le> n \<and> calls s1 = Suc n \<and>
            list_all (\<lambda>j. raises s j = None) [calls s ..< n] \<and>
            (raises s n = Some c \<or> raises s n = None \<and> c = ''DataError'') \<and>
            r = Inl (StoreFailure (handler (Create_user name) (n - calls s)) c) \<and>
            working s1 = committed s1 \<and>
            committed s1 = unit_start (Create_user name) s (n - calls s)) \<and>
         (errors s1 = errors s \<longrightarrow> list_all (\<lambda>j. raises s j = None) [calls s ..< calls s1])"
  using assms
  by (auto simp: create_user_def add_user_def commit_def read_id_def
      rollback_def store_call_def Let_def split: option.splits if_splits)

lemma add_user_identifier_store_error:
  assumes "add_user_identifier s user_id ident ident_type = (r, s1)"
  shows "(errors s1 = errors s \<or> (\<exists>n c. errors s1 = (n, c) # errors s)) \<and>
         (\<forall>n c. errors s1 = (n, c) # errors s \<longrightarrow>
            calls s \<le> n \<and> calls s1 = Suc n \<and>
            list_all (\<lambda>j. raises s j = None) [calls s ..< n] \<and>
            (raises s n = Some c \<or> raises s n = None \<and> c = ''DataError'') \<and>
            r = Inl (StoreFailure (handler (Add_user_identifier user_id ident ident_type) (n - calls s)) c) \<and>
            working s1 = committed s1 \<and>
            committed s1 = unit_start (Add_user_identifier user_id ident ident_type) s (n - calls s)) \<and>
         (errors s1 = errors s \<longrightarrow> list_all (\<lambda>j. raises s j = None) [calls s ..< calls s1])"
  using assms
  by (auto simp: add_user_identifier_def add_user_id_def commit_def read_id_def
      rollback_def store_call_def Let_def split: option.splits if_splits)

lemma update_user_store_error:
  assumes "update_user s user_id name = (r, s1)"
  shows "(errors s1 = errors s \<or> (\<exists>n c. errors s1 = (n, c) # errors s)) \<and>
         (\<forall>n c. errors s1 = (n, c) # errors s \<longrightarrow>
            calls s \<le> n \<and> calls s1 = Suc n \<and>
            list_all (\<lambda>j. raises s j = None) [calls s ..< n] \<and>
            (raises s n = Some c \<or> raises s n = None \<and> c = ''DataError'') \<and>
            r = Inl (StoreFailure (handler (Update_user user_id name) (n - calls s)) c) \<and>
            working s1 = committed s1 \<and>
            committed s1 = unit_start (Update_user user_id name) s (n - calls s)) \<and>
         (errors s1 = errors s \<longrightarrow> list_all (\<lambda>j. raises s j = None) [calls s ..< calls s1])"
  using assms
  by (auto simp: update_user_def set_user_name_def query_first_def commit_def
      rollback_def store_call_def Let_def split: option.splits if_splits)

lemma delete_user_store_error:
  assumes "delete_user s user_id = (r, s1)"
  shows "(errors s1 = errors s \<or> (\<exists>n c. errors s1 = (n, c) # errors s)) \<and>
         (\<forall>n c. errors s1 = (n, c) # errors s \<longrightarrow>
            calls s \<le> n \<and> calls s1 = Suc n \<and>
            list_all (\<lambda>j. raises s j = None) [calls s ..< n] \<and>
            (raises s n = Some c \<or> raises s n = None \<and> c = ''DataError'') \<and>
            r = Inl (StoreFailure (handler (Delete_user user_id) (n - calls s)) c) \<and>
            working s1 = committed s1 \<and>
            committed s1 = unit_start (Delete_user user_id) s (n - calls s)) \<and>
         (errors s1 = errors s \<longrightarrow> list_all (\<lambda>j. raises s j = None) [calls s ..< calls s1])"
  using assms
  by (auto simp: delete_user_def session_delete_user_def query_first_def commit_def
      rollback_def store_call_def Let_def split: option.splits if_splits)

lemma create_task_store_error:
  assumes "create_task s user_id name is_regular = (r, s1)"
  shows "(errors s1 = errors s \<or> (\<exists>n c. errors s1 = (n, c) # errors s)) \<and>
         (\<forall>n c. errors s1 = (n, c) # errors s \<longrightarrow>
            calls s \<le> n \<and> calls s1 = Suc n \<and>
            list_all (\<lambda>j. raises s j = None) [calls s ..< n] \<and>
            (raises s n = Some c \<or> raises s n = None \<and> c = ''DataError'') \<and>
            r = Inl (StoreFailure (handler (Create_task user_id name is_regular) (n - calls s)) c) \<and>
            working s1 = committed s1 \<and>
            committed s1 = unit_start (Create_task user_id name is_regular) s (n - calls s)) \<and>
         (errors s1 = errors s \<longrightarrow> list_all (\<lambda>j. raises s j = None) [calls s ..< calls s1])"
  using assms
  by (auto simp: create_task_def add_task_def commit_def read_id_def
      rollback_def store_call_def Let_def split: option.splits if_splits)

lemma create_regular_task_store_error:
  assumes "create_regular_task s user_id name weekdays = (r, s1)"
  shows "(errors s1 = errors s \<or> (\<exists>n c. errors s1 = (n, c) # errors s)) \<and>
         (\<forall>n c. errors s1 = (n, c) # errors s \<longrightarrow>
            calls s \<le> n \<and> calls s1 = Suc n \<and>
            list_all (\<lambda>j. raises s j = None) [calls s ..< n] \<and>
            (raises s n = Some c \<or> raises s n = None \<and> c = ''DataError'') \<and>
            r = Inl (StoreFailure (handler (Create_regular_task user_id name weekdays) (n - calls s)) c) \<and>
            working s1 = committed s1 \<and>
            committed s1 = unit_start (Create_regular_task user_id name weekdays) s (n - calls s)) \<and>
         (errors s1 = errors s \<longrightarrow> list_all (\<lambda>j. raises s j = None) [calls s ..< calls s1])"
  using assms
  by (auto simp: create_regular_task_def create_task_def add_task_def add_regular_task_def commit_def read_id_def
      rollback_def store_call_def Let_def split: option.splits if_splits)

lemma create_irregular_task_store_error:
  assumes "create_irregular_task s user_id name optimal_deadline hard_deadline = (r, s1)"
  shows "(errors s1 = errors s \<or> (\<exists>n c. errors s1 = (n, c) # errors s)) \<and>
         (\<forall>n c. errors s1 = (n, c) # errors s \<longrightarrow>
            calls s \<le> n \<and> calls s1 = Suc n \<and>
            list_all (\<lambda>j. raises s j = None) [calls s ..< n] \<and>
            (raises s n = Some c \<or> raises s n = None \<and> c = ''DataError'') \<and>
            r = Inl (StoreFailure (handler (Create_irregular_task user_id name optimal_deadline hard_deadline) (n - calls s)) c) \<and>
            working s1 = committed s1 \<and>
            committed s1 = unit_start (Create_irregular_task user_id name optimal_deadline hard_deadline) s (n - calls s)) \<and>
         (errors s1 = errors s \<longrightarrow> list_all (\<lambda>j. raises s j = None) [calls s ..< calls s1])"
  using assms
  by (auto simp: create_irregular_task_def create_task_def add_task_def add_irregular_task_def commit_def read_id_def
      rollback_def store_call_def Let_def split: option.splits if_splits)

lemma update_task_progress_store_error:
  assumes "update_task_progress s task_id progress = (r, s1)"
  shows "(errors s1 = errors s \<or> (\<exists>n c. errors s1 = (n, c) # errors s)) \<and>
         (\<forall>n c. errors s1 = (n, c) # errors s \<longrightarrow>
            calls s \<le> n \<and> calls s1 = Suc n \<and>
            list_all (\<lambda>j. raises s j = None) [calls s ..< n] \<and>
            (raises s n = Some c \<or> raises s n = None \<and> c = ''DataError'') \<and>
            r = Inl (StoreFailure (handler (Update_task_progress task_id progress) (n - calls s)) c) \<and>
            working s1 = committed s1 \<and>
            committed s1 = unit_start (Update_task_progress task_id progress) s (n - calls s)) \<and>
         (errors s1 = errors s \<longrightarrow> list_all (\<lambda>j. raises s j = None) [calls s ..< calls s1])"
  using assms
  by (auto simp: update_task_progress_def set_task_progress_def query_first_def commit_def
      rollback_def store_call_def Let_def split: option.splits if_splits)

lemma update_regular_task_store_error:
  assumes "update_regular_task s task_id name weekdays = (r, s1)"
  shows "(errors s1 = errors s \<or> (\<exists>n c. errors s1 = (n, c) # errors s)) \<and>
         (\<forall>n c. errors s1 = (n, c) # errors s \<longrightarrow>
            calls s \<le> n \<and> calls s1 = Suc n \<and>
            list_all (\<lambda>j. raises s j = None) [calls s ..< n] \<and>
            (raises s n = Some c \<or> raises s n = None \<and> c = ''DataError'') \<and>
            r = Inl (StoreFailure (handler (Update_regular_task task_id name weekdays) (n - calls s)) c) \<and>
            working s1 = committed s1 \<and>
            committed s1 = unit_start (Update_regular_task task_id name weekdays) s (n - calls s)) \<and>
         (errors s1 = errors s \<longrightarrow> list_all (\<lambda>j. raises s j = None) [calls s ..< calls s1])"
  using assms
  by (auto simp: update_regular_task_def rename_base_task_def truthy_str_def set_task_name_def set_weekdays_def query_first_def commit_def
      rollback_def store_call_def Let_def split: option.splits if_splits)

lemma update_irregular_task_store_error:
  assumes "update_irregular_task s task_id name optimal_deadline hard_deadline = (r, s1)"
  shows "(errors s1 = errors s \<or> (\<exists>n c. errors s1 = (n, c) # errors s)) \<and>
         (\<forall>n c. errors s1 = (n, c) # errors s \<longrightarrow>
            calls s \<le> n \<and> calls s1 = Suc n \<and>
            list_all (\<lambda>j. raises s j = None) [calls s ..< n] \<and>
            (raises s n = Some c \<or> raises s n = None \<and> c = ''DataError'') \<and>
            r = Inl (StoreFailure (handler (Update_irregular_task task_id name optimal_deadline hard_deadline) (n - calls s)) c) \<and>
            working s1 = committed s1 \<and>
            committed s1 = unit_start (Update_irregular_task task_id name optimal_deadline hard_deadline) s (n - calls s)) \<and>
         (errors s1 = errors s \<longrightarrow> list_all (\<lambda>j. raises s j = None) [calls s ..< calls s1])"
  using assms
  by (auto simp: update_irregular_task_def rename_base_task_def truthy_str_def set_task_name_def set_optimal_deadline_def set_hard_deadline_def query_first_def commit_def
      rollback_def store_call_def Let_def split: option.splits if_splits)

lemma delete_task_store_error:
  assumes "delete_task s task_id = (r, s1)"
  shows "(errors s1 = errors s \<or> (\<exists>n c. errors s1 = (n, c) # errors s)) \<and>
         (\<forall>n c. errors s1 = (n, c) # errors s \<longrightarrow>
            calls s \<le> n \<and> calls s1 = Suc n \<and>
            list_all (\<lambda>j. raises s j = None) [calls s ..< n] \<and>
            (raises s n = Some c \<or> raises s n = None \<and> c = ''DataError'') \<and>
            r = Inl (StoreFailure (handler (Delete_task task_id) (n - calls s)) c) \<and>
            working s1 = committed s1 \<and>
            committed s1 = unit_start (Delete_task task_id) s (n - calls s)) \<and>
         (errors s1 = errors s \<longrightarrow> list_all (\<lambda>j. raises s j = None) [calls s ..< calls s1])"
  using assms
  by (auto simp: delete_task_def session_delete_task_def query_first_def commit_def
      rollback_def store_call_def Let_def split: option.splits if_splits)

lemma raised_eq:
  assumes "raised x = (r, s1)"
  shows "\<exists>v. x = (v, s1) \<and> r = (case v of Inl e \<Rightarrow> Some e | Inr y \<Rightarrow> None)"
  using assms by (cases x) (auto simp: raised_def split: sum.splits)

lemma store_error_of_call:
  assumes "raised x = (r, s1)"
    and "\<And>v. x = (v, s1) \<Longrightarrow>
           (errors s1 = errors s \<or> (\<exists>n c. errors s1 = (n, c) # errors s)) \<and>
           (\<forall>n c. errors s1 = (n, c) # errors s \<longrightarrow>
              calls s \<le> n \<and> calls s1 = Suc n \<and>
              list_all (\<lambda>j. raises s j = None) [calls s ..< n] \<and>
              (raises s n = Some c \<or> raises s n = None \<and> c = ''DataError'') \<and>
              v = Inl (StoreFailure (handler m (n - calls s)) c) \<and>
              working s1 = committed s1 \<and>
              committed s1 = unit_start m s (n - calls s)) \<and>
           (errors s1 = errors s \<longrightarrow> list_all (\<lambda>j. raises s j = None) [calls s ..< calls s1])"
  shows "(errors s1 \<noteq> errors s \<longrightarrow>
           (\<exists>c n. store_error_at s s1 n c \<and>
              r = Some (StoreFailure (handler m (n - calls s)) c) \<and>
              working s1 = committed s1 \<and>
              committed s1 = unit_start m s (n - calls s))) \<and>
         (list_ex (\<lambda>j. raises s j \<noteq> None) [calls s ..< calls s1] \<longrightarrow> errors s1 \<noteq> errors s)"
proof -
  obtain v where x: "x = (v, s1)" and r: "r = (case v of Inl e \<Rightarrow> Some e | Inr y \<Rightarrow> None)"
    using raised_eq [OF assms(1)] by blast
  note f = assms(2) [OF x]
  have one: "\<exists>c n. store_error_at s s1 n c \<and>
              r = Some (StoreFailure (handler m (n - calls s)) c) \<and>
              working s1 = committed s1 \<and>
              committed s1 = unit_start m s (n - calls s)" if "errors s1 \<noteq> errors s"
  proof -
    from f that obtain n c where e: "errors s1 = (n, c) # errors s"
      by blast
    with f have "calls s \<le> n \<and> calls s1 = Suc n \<and>
              list_all (\<lambda>j. raises s j = None) [calls s ..< n] \<and>
              (raises s n = Some c \<or> raises s n = None \<and> c = ''DataError'') \<and>
              v = Inl (StoreFailure (handler m (n - calls s)) c) \<and>
              working s1 = committed s1 \<and>
              committed s1 = unit_start m s (n - calls s)"
      by blast
    with e r have "store_error_at s s1 n c \<and>
              r = Some (StoreFailure (handler m (n - calls s)) c) \<and>
              working s1 = committed s1 \<and>
              committed s1 = unit_start m s (n - calls s)"
      by (simp add: store_error_at_def)
    then show ?thesis by blast
  qed
  have two: "errors s1 \<noteq> errors s"
    if "list_ex (\<lambda>j. raises s j \<noteq> None) [calls s ..< calls s1]"
    using f that by (auto simp: list_ex_iff list_all_iff)
  show ?thesis
    using one two by blast
qed

text \<open>
  C4. For each of the eleven mutating operations: if the store raises at a store call
  the operation makes (the engine raises there, or the store refuses a value that does
  not fit its column), the operation raises the error of the handler around that call
  (the operation's own; in a composed create the one of \<open>create_task\<close> for the two
  store calls of \<open>create_task\<close>) carrying the text of what the store raised; the
  pending changes are rolled back, so that the session sees the tables as committed at
  the start of the unit of work of that call (the tables committed before the operation;
  for a create whose row was committed by an earlier store call of the operation, the
  tables with that row); and the call that raised is the last store call the operation
  made, every earlier one having been answered: nothing is swallowed, nothing retried.
  Every error the engine raises at a store call of the operation is such a store error.
\<close>

theorem store_error_rolled_back_and_reraised:
  assumes "run m s = (r, s1)"
  shows "(errors s1 \<noteq> errors s \<longrightarrow>
           (\<exists>c n. store_error_at s s1 n c \<and>
              r = Some (StoreFailure (handler m (n - calls s)) c) \<and>
              working s1 = committed s1 \<and>
              committed s1 = unit_start m s (n - calls s))) \<and>
         (list_ex (\<lambda>j. raises s j \<noteq> None) [calls s ..< calls s1] \<longrightarrow> errors s1 \<noteq> errors s)"
proof (cases m)
  case (Create_user name)
  with assms have "raised (create_user s name) = (r, s1)"
    by simp
  then show ?thesis
    unfolding Create_user by (rule store_error_of_call) (rule create_user_store_error)
next
  case (Add_user_identifier user_id ident ident_type)
  with assms have "raised (add_user_identifier s user_id ident ident_type) = (r, s1)"
    by simp
  then show ?thesis
    unfolding Add_user_identifier by (rule store_error_of_call) (rule add_user_identifier_store_error)
next
  case (Update_user user_id name)
  with assms have "raised (update_user s user_id name) = (r, s1)"
    by simp
  then show ?thesis
    unfolding Update_user by (rule store_error_of_call) (rule update_user_store_error)
next
  case (Delete_user user_id)
  with assms have "raised (delete_user s user_id) = (r, s1)"
    by simp
  then show ?thesis
    unfolding Delete_user by (rule store_error_of_call) (rule delete_user_store_error)
next
  case (Create_task user_id name is_regular)
  with assms have "raised (create_task s user_id name is_regular) = (r, s1)"
    by simp
  then show ?thesis
    unfolding Create_task by (rule store_error_of_call) (rule create_task_store_error)
next
  case (Create_regular_task user_id name weekdays)
  with assms have "raised (create_regular_task s user_id name weekdays) = (r, s1)"
    by simp
  then show ?thesis
    unfolding Create_regular_task by (rule store_error_of_call) (rule create_regular_task_store_error)
next
  case (Create_irregular_task user_id name optimal_deadline hard_deadline)
  with assms have "raised (create_irregular_task s user_id name optimal_deadline hard_deadline) = (r, s1)"
    by simp
  then show ?thesis
    unfolding Create_irregular_task by (rule store_error_of_call) (rule create_irregular_task_store_error)
next
  case (Update_task_progress task_id progress)
  with assms have "raised (update_task_progress s task_id progress) = (r, s1)"
    by simp
  then show ?thesis
    unfolding Update_task_progress by (rule store_error_of_call) (rule update_task_progress_store_error)
next
  case (Update_regular_task task_id name weekdays)
  with assms have "raised (update_regular_task s task_id name weekdays) = (r, s1)"
    by simp
  then show ?thesis
    unfolding Update_regular_task by (rule store_error_of_call) (rule update_regular_task_store_error)
next
  case (Update_irregular_task task_id name optimal_deadline hard_deadline)
  with assms have "raised (update_irregular_task s task_id name optimal_deadline hard_deadline) = (r, s1)"
    by simp
  then show ?thesis
    unfolding Update_irregular_task by (rule store_error_of_call) (rule update_irregular_task_store_error)
next
  case (Delete_task task_id)
  with assms have "raised (delete_task s task_id) = (r, s1)"
    by simp
  then show ?thesis
    unfolding Delete_task by (rule store_error_of_call) (rule delete_task_store_error)
qed

theorem store_error_rolled_back_and_reraised_witness:
  "errors (snd (run (Create_user ''Olga'') (open_session demo_db (fails_at 1 ''connection lost'')))) =
     [(1, ''connection lost'')] \<and>
   fst (run (Create_user ''Olga'') (open_session demo_db (fails_at 1 ''connection lost''))) =
     Some (StoreFailure CreateUser ''connection lost'') \<and>
   working (snd (run (Create_user ''Olga'') (open_session demo_db (fails_at 1 ''connection lost'')))) =
     demo_db\<lparr>users := users demo_db @ [\<lparr>u_id = 3, u_name = ''Olga''\<rparr>]\<rparr> \<and>
   committed (snd (run (Create_user ''Olga'') (open_session demo_db (fails_at 1 ''connection lost'')))) =
     demo_db\<lparr>users := users demo_db @ [\<lparr>u_id = 3, u_name = ''Olga''\<rparr>]\<rparr>"
proof -
  let ?s = "open_session demo_db (fails_at 1 ''connection lost'')"
  let ?m = "Create_user ''Olga''"
  have l: "errors (snd (run ?m ?s)) = [(1, ''connection lost'')]"
    by code_simp
  then have h: "errors (snd (run ?m ?s)) \<noteq> errors ?s"
    by (simp add: open_session_def)
  have e: "run ?m ?s = (fst (run ?m ?s), snd (run ?m ?s))"
    by simp
  from store_error_rolled_back_and_reraised [OF e, THEN conjunct1, THEN mp, OF h]
  obtain c n where a: "store_error_at ?s (snd (run ?m ?s)) n c"
    and r: "fst (run ?m ?s) = Some (StoreFailure (handler ?m (n - calls ?s)) c)"
    and w: "working (snd (run ?m ?s)) = committed (snd (run ?m ?s))"
    and u: "committed (snd (run ?m ?s)) = unit_start ?m ?s (n - calls ?s)"
    by blast
  from a l have n: "n = 1" and c: "c = ''connection lost''"
    by (simp_all add: store_error_at_def)
  have k: "unit_start ?m ?s (1 - calls ?s) =
      demo_db\<lparr>users := users demo_db @ [\<lparr>u_id = 3, u_name = ''Olga''\<rparr>]\<rparr>"
    by code_simp
  show ?thesis
    using l r w u k by (simp add: n c)
qed

section \<open>The sessions the API reaches\<close>

text \<open>
  The conditions on a session that the theorems above assume, nothing pending,
  extension rows that each name a task and rows that fit their columns, hold of the
  session opened on an empty store, and every mutating operation hands them on,
  whatever it returns or raises and whatever the engine does: they hold of every
  session the API reaches.
\<close>

lemma keys_hold_delete:
  assumes "extension_keys_hold db"
  shows "extension_keys_hold (delete_task_rows ks db)"
proof -
  have "k \<in> set (map t_id (filter (\<lambda>t. t_id t \<notin> set ks) (tasks db)))"
    if "k \<in> set (map t_id (tasks db))" and "k \<notin> set ks" for k
    using that by auto
  then show ?thesis
    using assms
    by (simp add: extension_keys_hold_def delete_task_rows_def list_all_iff)
qed

lemma keys_hold_other_tables [simp]:
  "extension_keys_hold (db\<lparr>users := us\<rparr>) = extension_keys_hold db"
  "extension_keys_hold (db\<lparr>user_ids := uis\<rparr>) = extension_keys_hold db"
  by (simp_all add: extension_keys_hold_def)

lemma delete_user_settled:
  assumes "settled s" and "delete_user s user_id = (r, s1)"
  shows "settled s1"
  using assms keys_hold_delete
  by (auto simp: settled_def delete_user_def session_delete_user_def
        query_first_def commit_def rollback_def store_call_def
        Let_def split: option.splits if_splits)

lemma delete_task_settled:
  assumes "settled s" and "delete_task s task_id = (r, s1)"
  shows "settled s1"
  using assms keys_hold_delete
  by (auto simp: settled_def delete_task_def session_delete_task_def
        query_first_def commit_def rollback_def store_call_def
        Let_def split: option.splits if_splits)

lemma keys_hold_map_tasks:
  assumes "\<And>t. t_id (f t) = t_id t"
  shows "extension_keys_hold (db\<lparr>tasks := map f (tasks db)\<rparr>) = extension_keys_hold db"
proof -
  have "map t_id (map f (tasks db)) = map t_id (tasks db)"
    by (simp add: assms)
  then show ?thesis
    by (simp add: extension_keys_hold_def del: map_map)
qed

lemma keys_hold_map_regular:
  assumes "\<And>r. r_task_id (f r) = r_task_id r"
  shows "extension_keys_hold (db\<lparr>regular_tasks := map f (regular_tasks db)\<rparr>) =
           extension_keys_hold db"
  by (simp add: extension_keys_hold_def list_all_iff assms)

lemma keys_hold_map_irregular:
  assumes "\<And>r. i_task_id (f r) = i_task_id r"
  shows "extension_keys_hold (db\<lparr>irregular_tasks := map f (irregular_tasks db)\<rparr>) =
           extension_keys_hold db"
  by (simp add: extension_keys_hold_def list_all_iff assms)

lemma set_task_name_keys [simp]:
  "extension_keys_hold (working (set_task_name k v s)) = extension_keys_hold (working s)"
  by (simp add: set_task_name_def keys_hold_map_tasks)

lemma set_task_progress_keys [simp]:
  "extension_keys_hold (working (set_task_progress k v s)) = extension_keys_hold (working s)"
  by (simp add: set_task_progress_def keys_hold_map_tasks)

lemma set_weekdays_keys [simp]:
  "extension_keys_hold (working (set_weekdays k v s)) = extension_keys_hold (working s)"
  by (simp add: set_weekdays_def keys_hold_map_regular)

lemma set_optimal_deadline_keys [simp]:
  "extension_keys_hold (working (set_optimal_deadline k v s)) = extension_keys_hold (working s)"
  by (simp add: set_optimal_deadline_def keys_hold_map_irregular)

lemma set_hard_deadline_keys [simp]:
  "extension_keys_hold (working (set_hard_deadline k v s)) = extension_keys_hold (working s)"
  by (simp add: set_hard_deadline_def keys_hold_map_irregular)

lemma setters_keep_session [simp]:
  "committed (set_task_name k v s) = committed s"
  "calls (set_task_name k v s) = calls s"
  "raises (set_task_name k v s) = raises s"
  "committed (set_task_progress k p s) = committed s"
  "calls (set_task_progress k p s) = calls s"
  "raises (set_task_progress k p s) = raises s"
  "committed (set_weekdays k v s) = committed s"
  "calls (set_weekdays k v s) = calls s"
  "raises (set_weekdays k v s) = raises s"
  "committed (set_optimal_deadline k d s) = committed s"
  "calls (set_optimal_deadline k d s) = calls s"
  "raises (set_optimal_deadline k d s) = raises s"
  "committed (set_hard_deadline k d s) = committed s"
  "calls (set_hard_deadline k d s) = calls s"
  "raises (set_hard_deadline k d s) = raises s"
  by (simp_all add: set_task_name_def set_task_progress_def set_weekdays_def
      set_optimal_deadline_def set_hard_deadline_def)

lemma update_task_progress_settled:
  assumes "settled s" and "update_task_progress s task_id progress = (r, s1)"
  shows "settled s1"
  using assms
  by (auto simp: settled_def update_task_progress_def
        query_first_def commit_def rollback_def store_call_def
        Let_def split: option.splits if_splits)

lemma update_regular_task_settled:
  assumes "settled s" and "update_regular_task s task_id name weekdays = (r, s1)"
  shows "settled s1"
  using assms
  by (auto simp: settled_def update_regular_task_def rename_base_task_def truthy_str_def
        query_first_def commit_def rollback_def store_call_def
        Let_def split: option.splits if_splits)

lemma update_irregular_task_settled:
  assumes "settled s"
    and "update_irregular_task s task_id name optimal_deadline hard_deadline = (r, s1)"
  shows "settled s1"
  using assms
  by (auto simp: settled_def update_irregular_task_def rename_base_task_def truthy_str_def
        query_first_def commit_def rollback_def store_call_def
        Let_def split: option.splits if_splits)

lemma create_user_settled:
  assumes "settled s" and "create_user s name = (r, s1)"
  shows "settled s1"
  using assms
  by (auto simp: settled_def create_user_def add_user_def commit_def read_id_def rollback_def
        store_call_def Let_def split: option.splits if_splits)

lemma add_user_identifier_settled:
  assumes "settled s" and "add_user_identifier s user_id ident ident_type = (r, s1)"
  shows "settled s1"
  using assms
  by (auto simp: settled_def add_user_identifier_def add_user_id_def commit_def read_id_def rollback_def
        store_call_def Let_def split: option.splits if_splits)

lemma update_user_settled:
  assumes "settled s" and "update_user s user_id name = (r, s1)"
  shows "settled s1"
  using assms
  by (auto simp: settled_def update_user_def set_user_name_def query_first_def commit_def
        rollback_def store_call_def Let_def split: option.splits if_splits)

lemma keys_hold_add_task:
  assumes "extension_keys_hold db"
  shows "extension_keys_hold (db\<lparr>tasks := tasks db @ [t]\<rparr>)"
  using assms by (auto simp: extension_keys_hold_def list_all_iff)

lemma keys_hold_add_regular:
  assumes "extension_keys_hold db" and "r_task_id x \<in> set (map t_id (tasks db))"
  shows "extension_keys_hold (db\<lparr>regular_tasks := regular_tasks db @ [x]\<rparr>)"
  using assms by (auto simp: extension_keys_hold_def list_all_iff)

lemma keys_hold_add_irregular:
  assumes "extension_keys_hold db" and "i_task_id x \<in> set (map t_id (tasks db))"
  shows "extension_keys_hold (db\<lparr>irregular_tasks := irregular_tasks db @ [x]\<rparr>)"
  using assms by (auto simp: extension_keys_hold_def list_all_iff)

lemma create_task_settled:
  assumes "settled s" and "create_task s user_id name is_regular = (r, s1)"
  shows "settled s1 \<and> (\<forall>k. r = Inr k \<longrightarrow> k \<in> set (map t_id (tasks (working s1))))"
  using assms
  by (auto simp: settled_def create_task_def add_task_def commit_def read_id_def rollback_def
        store_call_def Let_def keys_hold_add_task split: option.splits if_splits)

lemma create_regular_task_settled:
  assumes "settled s" and "create_regular_task s user_id name weekdays = (r, s1)"
  shows "settled s1"
proof (cases "create_task s user_id name True")
  case (Pair v s0)
  have s0: "settled s0" and k: "\<forall>k. v = Inr k \<longrightarrow> k \<in> set (map t_id (tasks (working s0)))"
    using create_task_settled [OF assms(1) Pair] by simp_all
  show ?thesis
  proof (cases v)
    case (Inl e)
    with assms(2) Pair s0 show ?thesis
      by (simp add: create_regular_task_def)
  next
    case (Inr task_id)
    with k have "task_id \<in> set (map t_id (tasks (working s0)))"
      by simp
    then have "extension_keys_hold ((working s0)\<lparr>regular_tasks := regular_tasks (working s0) @
        [\<lparr>r_id = j, r_task_id = task_id, r_weekdays = weekdays\<rparr>]\<rparr>)" for j
      using s0 by (intro keys_hold_add_regular) (auto simp: settled_def)
    with assms(2) Pair Inr s0 show ?thesis
      by (auto simp: settled_def create_regular_task_def add_regular_task_def commit_def
          rollback_def store_call_def Let_def split: option.splits if_splits)
  qed
qed

lemma create_irregular_task_settled:
  assumes "settled s"
    and "create_irregular_task s user_id name optimal_deadline hard_deadline = (r, s1)"
  shows "settled s1"
proof (cases "create_task s user_id name False")
  case (Pair v s0)
  have s0: "settled s0" and k: "\<forall>k. v = Inr k \<longrightarrow> k \<in> set (map t_id (tasks (working s0)))"
    using create_task_settled [OF assms(1) Pair] by simp_all
  show ?thesis
  proof (cases v)
    case (Inl e)
    with assms(2) Pair s0 show ?thesis
      by (simp add: create_irregular_task_def)
  next
    case (Inr task_id)
    with k have "task_id \<in> set (map t_id (tasks (working s0)))"
      by simp
    then have "extension_keys_hold ((working s0)\<lparr>irregular_tasks := irregular_tasks (working s0) @
        [\<lparr>i_id = j, i_task_id = task_id, i_optimal_deadline = optimal_deadline,
          i_hard_deadline = hard_deadline\<rparr>]\<rparr>)" for j
      using s0 by (intro keys_hold_add_irregular) (auto simp: settled_def)
    with assms(2) Pair Inr s0 show ?thesis
      by (auto simp: settled_def create_irregular_task_def add_irregular_task_def commit_def
          rollback_def store_call_def Let_def split: option.splits if_splits)
  qed
qed

lemma snd_raised: "snd (raised x) = snd x"
  by (cases x) (simp add: raised_def split: sum.splits)

lemma open_session_settled: "settled (open_session empty_db engine)"
  by (simp add: settled_def open_session_def empty_db_def extension_keys_hold_def
      columns_hold_def)

lemma run_keeps_settled:
  assumes "settled s" and "run m s = (r, s1)"
  shows "settled s1"
proof -
  have s1: "s1 = snd (run m s)"
    using assms(2) by simp
  show ?thesis
    unfolding s1
    by (cases m)
      (simp_all add: snd_raised
        create_user_settled [OF assms(1) surjective_pairing]
        add_user_identifier_settled [OF assms(1) surjective_pairing]
        update_user_settled [OF assms(1) surjective_pairing]
        delete_user_settled [OF assms(1) surjective_pairing]
        create_task_settled [OF assms(1) surjective_pairing, THEN conjunct1]
        create_regular_task_settled [OF assms(1) surjective_pairing]
        create_irregular_task_settled [OF assms(1) surjective_pairing]
        update_task_progress_settled [OF assms(1) surjective_pairing]
        update_regular_task_settled [OF assms(1) surjective_pairing]
        update_irregular_task_settled [OF assms(1) surjective_pairing]
        delete_task_settled [OF assms(1) surjective_pairing])
qed

end
